theory Spec2Isabelle
  imports Main "HOL-Library.AList"
begin

section \<open>Values and records\<close>

text \<open>
  The repository (\<^verbatim>\<open>src/Repo.ts\<close>) works on plain JavaScript values. A record is an
  object whose properties keep their insertion order, so it is an association list;
  numbers are the integers that keys and counts are. \<open>Instance e r\<close> is the model
  instance \<^verbatim>\<open>new this.entity(r)\<close> of the model class whose entity is \<open>e\<close>: the
  constructor belongs to the Model class and stays symbolic.
\<close>

datatype jsval =
    Undefined
  | Null
  | Bool bool
  | Num int
  | Str string
  | Arr "jsval list"
  | Obj "(string \<times> jsval) list"
  | Instance string jsval

type_synonym Record = "(string \<times> jsval) list"

text \<open>\<^verbatim>\<open>record[name]\<close>: a property that is not there reads as \<^verbatim>\<open>undefined\<close>.\<close>

definition getp :: "Record \<Rightarrow> string \<Rightarrow> jsval" where
  "getp r k = (case map_of r k of Some v \<Rightarrow> v | None \<Rightarrow> Undefined)"

text \<open>
  The own properties of a value that is read as a record. A primitive has none (properties
  inherited from a prototype, the indices of arrays and strings and the members of a model
  instance are not modelled).
\<close>

fun own_props :: "jsval \<Rightarrow> Record" where
  "own_props (Obj r) = r"
| "own_props _ = []"

text \<open>
  \<^verbatim>\<open>target[name] = v\<close>. \<open>None\<close> when the target is not a plain object: the TypeError of
  strict mode for \<^verbatim>\<open>null\<close>, \<^verbatim>\<open>undefined\<close> and the primitives. An array or an instance
  would take the property; the values here cannot hold the outcome, and no path of the
  repository that the theorems follow assigns to one.
\<close>

fun setp :: "jsval \<Rightarrow> string \<Rightarrow> jsval \<Rightarrow> jsval option" where
  "setp (Obj r) k v = Some (Obj (AList.update k v r))"
| "setp _ k v = None"

text \<open>JavaScript truthiness, as \<^verbatim>\<open>x ? a : b\<close>, \<^verbatim>\<open>!x\<close> and \<^verbatim>\<open>x && y\<close> read it.\<close>

fun truthy :: "jsval \<Rightarrow> bool" where
  "truthy Undefined = False"
| "truthy Null = False"
| "truthy (Bool b) = b"
| "truthy (Num n) = (n \<noteq> 0)"
| "truthy (Str s) = (s \<noteq> [])"
| "truthy (Arr xs) = True"
| "truthy (Obj r) = True"
| "truthy (Instance e r) = True"

section \<open>Schemas\<close>

text \<open>
  \<^verbatim>\<open>attr.model\<close> is a model class or the name of an entity. Model classes refer to each
  other in cycles, so a class is represented by the \<^verbatim>\<open>entity\<close> it declares, the only
  member the repository reads from a resolved relation.
\<close>

datatype related = ModelClass string | ModelName string

text \<open>
  The five attribute types of \<^verbatim>\<open>AttrTypes\<close>: \<^verbatim>\<open>Attr value\<close>,
  \<^verbatim>\<open>HasOne model foreignKey\<close>, \<^verbatim>\<open>BelongsTo model foreignKey\<close>,
  \<^verbatim>\<open>HasMany model foreignKey\<close>, \<^verbatim>\<open>HasManyBy model foreignKey otherKey\<close>.
\<close>

datatype attribute =
    Attr jsval
  | HasOne related string
  | BelongsTo related string
  | HasMany related string
  | HasManyBy related string string

text \<open>A field of a schema is an attribute or a nested group of fields (\<^verbatim>\<open>Attrs.isFields\<close>).\<close>

datatype field = Attribute attribute | Nested "(string \<times> field) list"

type_synonym Fields = "(string \<times> field) list"

text \<open>
  Modelled from the spec: the attribute objects of \<^verbatim>\<open>./Attributes\<close>, which is not among the
  sources. An attribute object holds its type tag and the members that the repository
  reads from it: \<^verbatim>\<open>type\<close> and \<^verbatim>\<open>value\<close> for a plain attribute, \<^verbatim>\<open>type\<close>, \<^verbatim>\<open>model\<close> and
  \<^verbatim>\<open>foreignKey\<close> for a relation, with \<^verbatim>\<open>otherKey\<close> for has-many-by. The tag is rendered as
  the name of the type, a string that is not empty; a model class, whose static members
  are not modelled, as an object without properties.
\<close>

fun related_member :: "related \<Rightarrow> jsval" where
  "related_member (ModelClass e) = Obj []"
| "related_member (ModelName s) = Str s"

fun attr_members :: "attribute \<Rightarrow> Record" where
  "attr_members (Attr v) = [(''type'', Str ''Attr''), (''value'', v)]"
| "attr_members (HasOne m k) =
     [(''type'', Str ''HasOne''), (''model'', related_member m), (''foreignKey'', Str k)]"
| "attr_members (BelongsTo m k) =
     [(''type'', Str ''BelongsTo''), (''model'', related_member m), (''foreignKey'', Str k)]"
| "attr_members (HasMany m k) =
     [(''type'', Str ''HasMany''), (''model'', related_member m), (''foreignKey'', Str k)]"
| "attr_members (HasManyBy m k ok) =
     [(''type'', Str ''HasManyBy''), (''model'', related_member m), (''foreignKey'', Str k),
      (''otherKey'', Str ok)]"

abbreviation members_size :: "Record \<Rightarrow> nat" where
  "members_size \<equiv> size_list (size_prod (\<lambda>_. 0) size)"

abbreviation fields_size :: "Fields \<Rightarrow> nat" where
  "fields_size \<equiv> size_list (size_prod (\<lambda>_. 0) size)"

section \<open>Default filling: \<^verbatim>\<open>Repo.buildRecord\<close> and \<^verbatim>\<open>Repo.fill\<close>\<close>

text \<open>The value \<^verbatim>\<open>buildRecord\<close> gives a missing attribute, by its type.\<close>

fun attr_default :: "attribute \<Rightarrow> jsval" where
  "attr_default (Attr v) = v"
| "attr_default (HasOne m k) = Null"
| "attr_default (BelongsTo m k) = Null"
| "attr_default (HasMany m k) = Arr []"
| "attr_default (HasManyBy m k ok) = Arr []"

text \<open>\<^verbatim>\<open>data[name] ? data[name] : {}\<close>, read as a record.\<close>

definition newData :: "Record \<Rightarrow> string \<Rightarrow> Record" where
  "newData data name = (if truthy (getp data name) then own_props (getp data name) else [])"

text \<open>
  \<^verbatim>\<open>buildRecord (data, fields, record = {})\<close>. The loop over \<^verbatim>\<open>fields\<close> is the
  recursion on the list; \<^verbatim>\<open>newRecord\<close> is the third argument, updated in place by the
  source and passed on here. The default \<^verbatim>\<open>{}\<close> stands in for an argument that is
  \<^verbatim>\<open>undefined\<close>. \<^verbatim>\<open>None\<close> is the TypeError of an assignment to a value that is not an
  object.
\<close>

function buildRecord :: "Record \<Rightarrow> Fields \<Rightarrow> jsval \<Rightarrow> jsval option" where
  "buildRecord data [] newRecord = Some newRecord"
| "buildRecord data ((name, Nested attr) # flds) newRecord =
     (case buildRecord (newData data name) attr
             (case getp (own_props newRecord) name of Undefined \<Rightarrow> Obj [] | r \<Rightarrow> r) of
        None \<Rightarrow> None
      | Some built \<Rightarrow>
          (case setp newRecord name built of
             None \<Rightarrow> None
           | Some newRecord' \<Rightarrow> buildRecord data flds newRecord'))"
| "buildRecord data ((name, Attribute attr) # flds) newRecord =
     (case setp newRecord name
             (if getp data name \<noteq> Undefined then getp data name else attr_default attr) of
        None \<Rightarrow> None
      | Some newRecord' \<Rightarrow> buildRecord data flds newRecord')"
  by pat_completeness auto
termination
  by (relation "measure (\<lambda>(data, flds, newRecord). fields_size flds)") auto

section \<open>The store and the query engine\<close>

text \<open>
  \<^verbatim>\<open>state[entity].data\<close>: one table per entity, from the primary key as a string to the
  record, in the order the engine iterates it.
\<close>

type_synonym Table = "(string \<times> Record) list"

type_synonym State = "(string \<times> Table) list"

text \<open>
  Decimal digits of a number, for the key \<^verbatim>\<open>String(id)\<close> of a table. This is
  \<^verbatim>\<open>String(n)\<close> of an integer below \<open>10\<^sup>2\<^sup>1\<close> in absolute value; from there on JavaScript
  writes the number with an exponent.
\<close>

definition digit_char :: "nat \<Rightarrow> char" where
  "digit_char n = ''0123456789'' ! n"

function digits :: "nat \<Rightarrow> string" where
  "digits n = (if n < 10 then [digit_char n] else digits (n div 10) @ [digit_char (n mod 10)])"
  by pat_completeness auto
termination
  by (relation "measure id") auto

declare digits.simps [simp del]

definition show_int :: "int \<Rightarrow> string" where
  "show_int i = (if i < 0 then CHR ''-'' # digits (nat (- i)) else digits (nat i))"

fun intersperse :: "string \<Rightarrow> string list \<Rightarrow> string" where
  "intersperse sep [] = []"
| "intersperse sep [x] = x"
| "intersperse sep (x # y # ys) = x @ sep @ intersperse sep (y # ys)"

text \<open>\<^verbatim>\<open>String(v)\<close>, the property key a value is read as.\<close>

fun key_of :: "jsval \<Rightarrow> string" where
  "key_of Undefined = ''undefined''"
| "key_of Null = ''null''"
| "key_of (Bool b) = (if b then ''true'' else ''false'')"
| "key_of (Num n) = show_int n"
| "key_of (Str s) = s"
| "key_of (Arr xs) =
     intersperse '',''
       (map (\<lambda>x. case x of Undefined \<Rightarrow> [] | Null \<Rightarrow> [] | _ \<Rightarrow> key_of x) xs)"
| "key_of (Obj r) = ''[object Object]''"
| "key_of (Instance e r) = ''[object Object]''"

text \<open>
  \<^verbatim>\<open>a === b\<close>. Objects and arrays are compared by identity: a value given to a query is
  never the stored object itself.
\<close>

fun strict_eq :: "jsval \<Rightarrow> jsval \<Rightarrow> bool" where
  "strict_eq Undefined Undefined = True"
| "strict_eq Null Null = True"
| "strict_eq (Bool a) (Bool b) = (a = b)"
| "strict_eq (Num a) (Num b) = (a = b)"
| "strict_eq (Str a) (Str b) = (a = b)"
| "strict_eq _ _ = False"

text \<open>
  Modelled from the spec: \<^verbatim>\<open>_.includes(ids, key)\<close> of \<^verbatim>\<open>./support/lodash\<close>, which is not
  among the sources; membership by \<^verbatim>\<open>===\<close> on the primitive keys compared here.
\<close>

definition includes_val :: "jsval list \<Rightarrow> jsval \<Rightarrow> bool" where
  "includes_val ids key = list_ex (\<lambda>i. strict_eq i key) ids"

text \<open>
  Modelled from the spec: \<^verbatim>\<open>_.isEmpty(value)\<close> of \<^verbatim>\<open>./support/lodash\<close>, which is not among
  the sources; true of a value with no element or own property, as lodash defines it
  (a model instance has the own properties of its record).
\<close>

fun isEmpty :: "jsval \<Rightarrow> bool" where
  "isEmpty (Str s) = (s = [])"
| "isEmpty (Arr xs) = (xs = [])"
| "isEmpty (Obj r) = (r = [])"
| "isEmpty (Instance e r) = isEmpty r"
| "isEmpty _ = True"

text \<open>
  Modelled from the spec: the \<^verbatim>\<open>Query\<close> class (\<^verbatim>\<open>./Query\<close>), which is not among the
  sources. Section 4.3: a predicate is \<open>(fieldName, value)\<close> (equality),
  \<open>(fieldName, predicateFn)\<close> or a whole-record predicate function, in the AND group
  (\<^verbatim>\<open>where\<close>) or the OR group (\<^verbatim>\<open>orWhere\<close>).
\<close>

datatype where_clause =
    WhereField string jsval
  | WhereTest string "jsval \<Rightarrow> bool"
  | WhereRecord "Record \<Rightarrow> bool"

datatype where_boolean = And | Or

record Query =
  qname :: string
  wheres :: "(where_clause \<times> where_boolean) list"
  qoffset :: nat
  qlimit :: "nat option"

text \<open>Modelled from the spec: \<^verbatim>\<open>new Query(state, entity)\<close>, with no predicate yet.\<close>

definition new_Query :: "string \<Rightarrow> Query" where
  "new_Query entity = \<lparr>qname = entity, wheres = [], qoffset = 0, qlimit = None\<rparr>"

text \<open>Modelled from the spec: \<^verbatim>\<open>Query.where\<close> and \<^verbatim>\<open>Query.orWhere\<close>.\<close>

definition Query_where :: "where_clause \<Rightarrow> Query \<Rightarrow> Query" where
  "Query_where w q = q\<lparr>wheres := wheres q @ [(w, And)]\<rparr>"

definition Query_orWhere :: "where_clause \<Rightarrow> Query \<Rightarrow> Query" where
  "Query_orWhere w q = q\<lparr>wheres := wheres q @ [(w, Or)]\<rparr>"

text \<open>Modelled from the spec (4.3): whether a record passes one predicate.\<close>

fun passes :: "Record \<Rightarrow> where_clause \<Rightarrow> bool" where
  "passes r (WhereField f v) = strict_eq (getp r f) v"
| "passes r (WhereTest f p) = p (getp r f)"
| "passes r (WhereRecord p) = p r"

text \<open>
  Modelled from the spec (4.3): final inclusion = (all AND predicates pass) OR (any OR
  predicate passes); with no predicate every record passes.
\<close>

definition whereOnRecord :: "Query \<Rightarrow> Record \<Rightarrow> bool" where
  "whereOnRecord q r =
     (list_all (passes r) (map fst (filter (\<lambda>w. snd w = And) (wheres q)))
      \<or> list_ex (passes r) (map fst (filter (\<lambda>w. snd w = Or) (wheres q))))"

text \<open>
  Modelled from the spec (4.3): the matches of the query in table order, \<^verbatim>\<open>offset\<close>
  skipped and \<^verbatim>\<open>limit\<close> kept. Ordering (\<^verbatim>\<open>orderBy\<close>) is not modelled. \<open>None\<close>: the
  entity has no table in the state (section 7: the lookup of an undeclared entity fails).
\<close>

definition Query_get :: "State \<Rightarrow> Query \<Rightarrow> Record list option" where
  "Query_get state q =
     (case map_of state (qname q) of
        None \<Rightarrow> None
      | Some table \<Rightarrow>
          Some ((case qlimit q of None \<Rightarrow> (\<lambda>rs. rs) | Some n \<Rightarrow> take n)
                  (drop (qoffset q) (filter (whereOnRecord q) (map snd table)))))"

text \<open>
  Modelled from the spec (4.3): \<^verbatim>\<open>first(id)\<close> is the key lookup in the table when an id
  is given, else the first match; \<^verbatim>\<open>null\<close> when there is none.
\<close>

definition Query_first :: "State \<Rightarrow> Query \<Rightarrow> jsval \<Rightarrow> jsval option" where
  "Query_first state q ident =
     (case map_of state (qname q) of
        None \<Rightarrow> None
      | Some table \<Rightarrow>
          (if ident \<noteq> Undefined
           then Some (case map_of table (key_of ident) of None \<Rightarrow> Null | Some r \<Rightarrow> Obj r)
           else (case Query_get state q of
                   None \<Rightarrow> None
                 | Some [] \<Rightarrow> Some Null
                 | Some (r # rs) \<Rightarrow> Some (Obj r))))"

text \<open>Modelled from the spec (4.2): \<^verbatim>\<open>create\<close> replaces the entity's entire table.\<close>

definition Query_create :: "Query \<Rightarrow> Table \<Rightarrow> State \<Rightarrow> State" where
  "Query_create q records state = AList.update (qname q) records state"

text \<open>
  Modelled from the spec (4.2): \<^verbatim>\<open>insert\<close> is an upsert, a full replace of the record at
  each key.
\<close>

definition Query_insert :: "Query \<Rightarrow> Table \<Rightarrow> State \<Rightarrow> State" where
  "Query_insert q records state =
     AList.update (qname q)
       (fold (\<lambda>(k, r). AList.update k r) records
          (case map_of state (qname q) of None \<Rightarrow> [] | Some table \<Rightarrow> table))
       state"

text \<open>\<^verbatim>\<open>{ ...record, ...data }\<close>: the shallow merge of \<open>data\<close> onto a record.\<close>

definition merge :: "Record \<Rightarrow> Record \<Rightarrow> Record" where
  "merge r data = fold (\<lambda>(k, v). AList.update k v) data r"

text \<open>
  The \<^verbatim>\<open>Condition\<close> of an update: a value (a primary key, or nothing given when it is
  \<^verbatim>\<open>undefined\<close>) or a predicate function.
\<close>

datatype Condition = Key jsval | Predicate "Record \<Rightarrow> bool"

text \<open>
  Modelled from the spec (4.2): \<^verbatim>\<open>update\<close> by a primary key merges \<open>data\<close> onto exactly
  the record at that key; by a predicate, onto every record that matches.
\<close>

definition Query_update :: "Query \<Rightarrow> Record \<Rightarrow> Condition \<Rightarrow> State \<Rightarrow> State option" where
  "Query_update q data condition state =
     (case map_of state (qname q) of
        None \<Rightarrow> None
      | Some table \<Rightarrow>
          Some (AList.update (qname q)
                  (case condition of
                     Key k \<Rightarrow> map (\<lambda>(i, r). (i, if i = key_of k then merge r data else r)) table
                   | Predicate p \<Rightarrow> map (\<lambda>(i, r). (i, if p r then merge r data else r)) table)
                  state))"

section \<open>Models and the registry\<close>

text \<open>
  The static members of a model class that the repository reads: \<^verbatim>\<open>entity\<close>,
  \<^verbatim>\<open>primaryKey\<close> (default \<^verbatim>\<open>'id'\<close>) and \<^verbatim>\<open>fields()\<close> (here \<open>model_fields\<close>).
\<close>

record model =
  entity :: string
  primaryKey :: string
  model_fields :: Fields

text \<open>
  \<^verbatim>\<open>NormalizedData\<close>: entity name to (primary key to record), the output of
  \<^verbatim>\<open>Model.normalize\<close>.
\<close>

type_synonym NormalizedData = "(string \<times> Table) list"

text \<open>
  What the repository reaches outside itself. \<open>models\<close> is the registry behind
  \<^verbatim>\<open>Container.connection(state.name)\<close>, by entity name. \<open>globalName\<close> is the value of the
  identifier \<^verbatim>\<open>name\<close> in \<^verbatim>\<open>resolveRelation\<close>: the module declares and imports no such
  variable, so it is the global one (\<^verbatim>\<open>window.name\<close> in a browser). \<open>normalizer\<close> is
  \<^verbatim>\<open>Model.normalize\<close> of the entity with the given name, which is not among the sources.
\<close>

record Env =
  models :: "(string \<times> model) list"
  globalName :: string
  normalizer :: "string \<Rightarrow> jsval \<Rightarrow> NormalizedData"

text \<open>
  \<^verbatim>\<open>Repo.model(state, name)\<close>: the model of the given name from the container (the
  container itself is not among the sources and is modelled from the spec as a registry
  by entity name). \<open>None\<close>: no model is registered under the name (section 7: the lookup
  fails).
\<close>

definition model_of :: "Env \<Rightarrow> string \<Rightarrow> model option" where
  "model_of env nm = map_of (models env) nm"

section \<open>The repository\<close>

text \<open>
  A relation to load is \<^verbatim>\<open>{ name, constraint }\<close>. A constraint is a callback on the
  query of the related entity; the store holds no closures, so a callback is given by
  what it does: the builder calls it makes on the query, in order, and what it returns
  (nothing, a boolean, or a comparison of \<^verbatim>\<open>query.count()\<close> with a number, the form
  \<^verbatim>\<open>hasRelation\<close> builds). \<open>NotCallable\<close> is a number or string that \<^verbatim>\<open>has\<close> passes
  through as the constraint.
\<close>

datatype comparison = Equal | Greater | GreaterEq | Less | LessEq

datatype returned = Nothing | Returns bool | CountIs comparison int

datatype constraint =
    NoConstraint
  | NotCallable jsval
  | Callback "call list" returned
and call =
    CallWhere where_clause
  | CallOrWhere where_clause
  | CallWith string constraint

type_synonym Relation = "string \<times> constraint"

text \<open>The fields of a \<^verbatim>\<open>Repo\<close> instance (\<^verbatim>\<open>state\<close> is passed to each operation).\<close>

record Repo =
  rname :: string
  rentity :: model
  wrap :: bool
  load :: "Relation list"
  query :: Query

text \<open>\<^verbatim>\<open>new Repo(state, entity, wrap)\<close>, also \<^verbatim>\<open>Repo.query(state, name, wrap)\<close>.\<close>

definition new_Repo :: "Env \<Rightarrow> string \<Rightarrow> bool \<Rightarrow> Repo option" where
  "new_Repo env ent wr =
     (case model_of env ent of
        None \<Rightarrow> None
      | Some m \<Rightarrow>
          Some \<lparr>rname = ent, rentity = m, wrap = wr, load = [], query = new_Query ent\<rparr>)"

text \<open>\<^verbatim>\<open>Repo.where\<close>, \<^verbatim>\<open>Repo.orWhere\<close>, \<^verbatim>\<open>Repo.offset\<close>, \<^verbatim>\<open>Repo.limit\<close>, \<^verbatim>\<open>Repo.with\<close>.\<close>

definition Repo_where :: "where_clause \<Rightarrow> Repo \<Rightarrow> Repo" where
  "Repo_where w r = r\<lparr>query := Query_where w (query r)\<rparr>"

definition Repo_orWhere :: "where_clause \<Rightarrow> Repo \<Rightarrow> Repo" where
  "Repo_orWhere w r = r\<lparr>query := Query_orWhere w (query r)\<rparr>"

definition Repo_offset :: "nat \<Rightarrow> Repo \<Rightarrow> Repo" where
  "Repo_offset n r = r\<lparr>query := (query r)\<lparr>qoffset := n\<rparr>\<rparr>"

definition Repo_limit :: "nat \<Rightarrow> Repo \<Rightarrow> Repo" where
  "Repo_limit n r = r\<lparr>query := (query r)\<lparr>qlimit := Some n\<rparr>\<rparr>"

definition Repo_with :: "string \<Rightarrow> constraint \<Rightarrow> Repo \<Rightarrow> Repo" where
  "Repo_with nm c r = r\<lparr>load := load r @ [(nm, c)]\<rparr>"

text \<open>\<^verbatim>\<open>name.split('.')\<close> and \<^verbatim>\<open>relations.join('.')\<close>.\<close>

fun split_dot :: "string \<Rightarrow> string list" where
  "split_dot [] = [[]]"
| "split_dot (c # cs) =
     (if c = CHR ''.'' then [] # split_dot cs
      else (case split_dot cs of [] \<Rightarrow> [[c]] | w # ws \<Rightarrow> (c # w) # ws))"

definition join_dot :: "string list \<Rightarrow> string" where
  "join_dot ws = intersperse ''.'' ws"

text \<open>\<^verbatim>\<open>Repo.resolveRelation(attr).entity\<close>, as the four loaders read it.\<close>

definition resolveRelation :: "Env \<Rightarrow> related \<Rightarrow> string option" where
  "resolveRelation env m =
     (case m of
        ModelClass e \<Rightarrow> Some e
      | ModelName s \<Rightarrow> map_option entity (model_of env (globalName env)))"

text \<open>The builder calls of a callback, made on the query in order.\<close>

fun make_call :: "call \<Rightarrow> Repo \<Rightarrow> Repo" where
  "make_call (CallWhere w) r = Repo_where w r"
| "make_call (CallOrWhere w) r = Repo_orWhere w r"
| "make_call (CallWith nm c) r = Repo_with nm c r"

definition make_calls :: "call list \<Rightarrow> Repo \<Rightarrow> Repo" where
  "make_calls cs r = fold make_call cs r"

definition compare :: "comparison \<Rightarrow> int \<Rightarrow> int \<Rightarrow> bool" where
  "compare c a b =
     (case c of Equal \<Rightarrow> a = b | Greater \<Rightarrow> a > b | GreaterEq \<Rightarrow> a \<ge> b
      | Less \<Rightarrow> a < b | LessEq \<Rightarrow> a \<le> b)"

text \<open>
  \<^verbatim>\<open>Repo.addConstraint(query, relation)\<close>. A dotted path hands the rest of the path to
  the query with \<^verbatim>\<open>query.with(relations.join('.'))\<close> and returns; otherwise the
  constraint is called on the query and a boolean result becomes
  \<^verbatim>\<open>query.where(() => result)\<close>. \<open>counter\<close> is \<^verbatim>\<open>query.count()\<close>, which a callback of
  the form \<open>CountIs\<close> calls: it is \<open>count\<close> below, a parameter here because \<open>count\<close>
  is defined together with the loaders that call this function. \<open>None\<close>: the call of a
  constraint that is not a function, or an error inside \<^verbatim>\<open>count\<close>.
\<close>

definition addConstraint_with :: "(Repo \<Rightarrow> (nat \<times> Repo) option) \<Rightarrow> Repo \<Rightarrow> Relation \<Rightarrow> Repo option" where
  "addConstraint_with counter qr relation =
     (let relations = split_dot (fst relation) in
      if length relations \<noteq> 1
      then Some (Repo_with (join_dot (tl relations)) NoConstraint qr)
      else (case snd relation of
              NoConstraint \<Rightarrow> Some qr
            | NotCallable v \<Rightarrow>
                (if truthy v then None
                 else (case v of
                         Bool b \<Rightarrow> Some (Repo_where (WhereRecord (\<lambda>_. b)) qr)
                       | _ \<Rightarrow> Some qr))
            | Callback calls ret \<Rightarrow>
                (case ret of
                   Nothing \<Rightarrow> Some (make_calls calls qr)
                 | Returns b \<Rightarrow> Some (Repo_where (WhereRecord (\<lambda>_. b)) (make_calls calls qr))
                 | CountIs cmp n \<Rightarrow>
                     (case counter (make_calls calls qr) of
                        None \<Rightarrow> None
                      | Some (k, qr') \<Rightarrow>
                          Some (Repo_where (WhereRecord (\<lambda>_. compare cmp (int k) n)) qr')))))"

text \<open>Weights of the relations still to load; they only serve the termination proof below.\<close>

fun constraint_weight :: "constraint \<Rightarrow> nat"
and call_weight :: "call \<Rightarrow> nat" where
  "constraint_weight NoConstraint = 0"
| "constraint_weight (NotCallable v) = 0"
| "constraint_weight (Callback calls ret) = Suc (sum_list (map call_weight calls))"
| "call_weight (CallWhere w) = 0"
| "call_weight (CallOrWhere w) = 0"
| "call_weight (CallWith nm c) = length (split_dot nm) + constraint_weight c"

definition relation_weight :: "Relation \<Rightarrow> nat" where
  "relation_weight r = length (split_dot (fst r)) + constraint_weight (snd r)"

definition load_weight :: "Relation list \<Rightarrow> nat" where
  "load_weight lds = sum_list (map relation_weight lds)"

lemma addConstraint_with_cong [fundef_cong]:
  assumes "qr = qr'" and "relation = relation'"
    and "\<And>calls ret. snd relation' = Callback calls ret \<Longrightarrow> length (split_dot (fst relation')) = 1
           \<Longrightarrow> f (make_calls calls qr') = g (make_calls calls qr')"
  shows "addConstraint_with f qr relation = addConstraint_with g qr' relation'"
  using assms
  by (auto simp: addConstraint_with_def Let_def split: constraint.splits returned.splits)

text \<open>
  \<^verbatim>\<open>relation.name.split('.')[0]\<close> of every relation to load.
\<close>

definition relation_names :: "Relation list \<Rightarrow> string list" where
  "relation_names lds = map (\<lambda>relation. hd (split_dot (fst relation))) lds"

text \<open>
  \<^verbatim>\<open>loadRelations(base, load, record, fields)\<close> when the object given as \<^verbatim>\<open>fields\<close> is not
  a group of fields. The loop over the fields of \<^verbatim>\<open>loadRelations\<close> hands every field \<open>f\<close>
  with a truthy \<^verbatim>\<open>f[name]\<close> to the recursive call: a nested group that has the relation,
  but also an attribute object when the relation is named like one of its members, and
  from there a member that is an object with such a property. An object of this kind holds
  no attribute (\<^verbatim>\<open>Attrs.isAttribute\<close>, which is not among the sources, is taken to be false
  of a tag, a key name, a model and a default value), so every relation goes to the loop
  over the members: \<^verbatim>\<open>f[name]\<close> of a member that is \<^verbatim>\<open>null\<close> or \<^verbatim>\<open>undefined\<close> is a
  TypeError (\<open>None\<close>), a member that is an object with a truthy property \<open>name\<close> is gone
  into in turn, and \<^verbatim>\<open>record[key]\<close> is assigned what the call returns. Only the first
  segments of the relation names are read here, so they stand for the relations.
\<close>

function
  loadRelations_data :: "Record \<Rightarrow> string list \<Rightarrow> jsval \<Rightarrow> Record \<Rightarrow> jsval option"
and reduceLoad_data :: "Record \<Rightarrow> string list \<Rightarrow> Record \<Rightarrow> string list \<Rightarrow> jsval \<Rightarrow> jsval option"
and forEachMember :: "Record \<Rightarrow> string list \<Rightarrow> string \<Rightarrow> Record \<Rightarrow> jsval \<Rightarrow> jsval option"
where
  "loadRelations_data base names rcd members =
     reduceLoad_data base names members names (if truthy rcd then rcd else Obj base)"
| "reduceLoad_data base names members [] rcd = Some rcd"
| "reduceLoad_data base names members (nm # rest) rcd =
     (case forEachMember base names nm members rcd of
        None \<Rightarrow> None
      | Some rcd' \<Rightarrow> reduceLoad_data base names members rest rcd')"
| "forEachMember base names nm [] rcd = Some rcd"
| "forEachMember base names nm (kf # others) rcd =
     (case snd kf of
        Undefined \<Rightarrow> None
      | Null \<Rightarrow> None
      | Obj r \<Rightarrow>
          (if truthy (getp r nm)
           then (case loadRelations_data base names (getp (own_props rcd) (fst kf)) r of
                   None \<Rightarrow> None
                 | Some v \<Rightarrow>
                     (case setp rcd (fst kf) v of
                        None \<Rightarrow> None
                      | Some rcd' \<Rightarrow> forEachMember base names nm others rcd'))
           else forEachMember base names nm others rcd)
      | _ \<Rightarrow> forEachMember base names nm others rcd)"
  by pat_completeness auto
termination loadRelations_data
  apply (relation "inv_image (less_than <*lex*> less_than)
    (case_sum
      (\<lambda>(base, names, rcd, members). (3 * members_size members + 2, 0))
      (case_sum
        (\<lambda>(base, names, members, remaining, rcd). (3 * members_size members + 1, length remaining))
        (\<lambda>(base, names, nm, members, rcd). (3 * members_size members, 0))))")
  apply auto
  done

declare loadRelations_data.simps [simp del] reduceLoad_data.simps [simp del]
  forEachMember.simps [simp del]

text \<open>
  The read path of the repository: \<^verbatim>\<open>loadRelations\<close> (with its \<^verbatim>\<open>_.reduce\<close> over the
  relations as \<open>reduceLoad\<close> and its \<^verbatim>\<open>_.forEach\<close> over the fields as \<open>forEachField\<close>),
  the four loaders, and \<^verbatim>\<open>count\<close>, \<^verbatim>\<open>get\<close>, \<^verbatim>\<open>first\<close>, \<^verbatim>\<open>item\<close>, \<^verbatim>\<open>collect\<close>,
  which call each other. \<open>this\<close> is the instance, \<open>e\<close> and \<open>s\<close> the registry and the
  state it reads. An optional argument of \<^verbatim>\<open>loadRelations\<close> is an \<open>option\<close>
  (\<^verbatim>\<open>load || this.load\<close>, \<^verbatim>\<open>fields || this.entity.fields()\<close>); \<^verbatim>\<open>record || { ...base }\<close>
  tests the truthiness of the value given. A loader takes the members of its attribute
  (\<^verbatim>\<open>attr.model\<close>, \<^verbatim>\<open>attr.foreignKey\<close>, \<^verbatim>\<open>attr.otherKey\<close>) in place of \<^verbatim>\<open>attr\<close>.
  \<^verbatim>\<open>f[name]\<close> in the loop over the fields is read of every field: of a nested group of
  fields it is the field of that name, which is an object and truthy; of an attribute
  object it is the member of that name, and the recursive call is then
  \<open>loadRelations_data\<close> on the members. \<^verbatim>\<open>count\<close> returns the number and the instance as
  the call leaves it (\<^verbatim>\<open>this.wrap = false\<close>). \<open>None\<close> is a thrown error.
\<close>

function
  loadRelations :: "Env \<Rightarrow> State \<Rightarrow> Repo \<Rightarrow> Record \<Rightarrow> Relation list option \<Rightarrow> jsval \<Rightarrow> Fields option \<Rightarrow> jsval option"
and reduceLoad :: "Env \<Rightarrow> State \<Rightarrow> Repo \<Rightarrow> Record \<Rightarrow> Relation list \<Rightarrow> Fields \<Rightarrow> Relation list \<Rightarrow> jsval \<Rightarrow> jsval option"
and forEachField :: "Env \<Rightarrow> State \<Rightarrow> Repo \<Rightarrow> Record \<Rightarrow> Relation list \<Rightarrow> string \<Rightarrow> Fields \<Rightarrow> jsval \<Rightarrow> jsval option"
and loadHasOneRelation :: "Env \<Rightarrow> State \<Rightarrow> Record \<Rightarrow> related \<Rightarrow> string \<Rightarrow> Relation \<Rightarrow> jsval option"
and loadBelongsToRelation :: "Env \<Rightarrow> State \<Rightarrow> Record \<Rightarrow> related \<Rightarrow> string \<Rightarrow> Relation \<Rightarrow> jsval option"
and loadHasManyRelation :: "Env \<Rightarrow> State \<Rightarrow> Record \<Rightarrow> related \<Rightarrow> string \<Rightarrow> Relation \<Rightarrow> jsval option"
and loadHasManyByRelation :: "Env \<Rightarrow> State \<Rightarrow> Record \<Rightarrow> related \<Rightarrow> string \<Rightarrow> string \<Rightarrow> Relation \<Rightarrow> jsval option"
and count :: "Env \<Rightarrow> State \<Rightarrow> Repo \<Rightarrow> (nat \<times> Repo) option"
and get :: "Env \<Rightarrow> State \<Rightarrow> Repo \<Rightarrow> jsval list option"
and first :: "Env \<Rightarrow> State \<Rightarrow> Repo \<Rightarrow> jsval \<Rightarrow> jsval option"
and item :: "Env \<Rightarrow> State \<Rightarrow> Repo \<Rightarrow> jsval \<Rightarrow> jsval option"
and collect :: "Env \<Rightarrow> State \<Rightarrow> Repo \<Rightarrow> Record list \<Rightarrow> jsval list option"
where
  "loadRelations e s this base lds rcd flds =
     reduceLoad e s this base
       (case lds of None \<Rightarrow> load this | Some l \<Rightarrow> l)
       (case flds of None \<Rightarrow> model_fields (rentity this) | Some f \<Rightarrow> f)
       (case lds of None \<Rightarrow> load this | Some l \<Rightarrow> l)
       (if truthy rcd then rcd else Obj base)"
| "reduceLoad e s this base lds flds [] rcd = Some rcd"
| "reduceLoad e s this base lds flds (relation # rest) rcd =
     (let nm = hd (split_dot (fst relation)) in
      case map_of flds nm of
        Some (Attribute (Attr v)) \<Rightarrow> reduceLoad e s this base lds flds rest rcd
      | Some (Attribute (HasOne m foreignKey)) \<Rightarrow>
          (case loadHasOneRelation e s base m foreignKey relation of
             None \<Rightarrow> None
           | Some v \<Rightarrow>
               (case setp rcd nm v of
                  None \<Rightarrow> None
                | Some rcd' \<Rightarrow> reduceLoad e s this base lds flds rest rcd'))
      | Some (Attribute (BelongsTo m foreignKey)) \<Rightarrow>
          (case loadBelongsToRelation e s base m foreignKey relation of
             None \<Rightarrow> None
           | Some v \<Rightarrow>
               (case setp rcd nm v of
                  None \<Rightarrow> None
                | Some rcd' \<Rightarrow> reduceLoad e s this base lds flds rest rcd'))
      | Some (Attribute (HasMany m foreignKey)) \<Rightarrow>
          (case loadHasManyRelation e s base m foreignKey relation of
             None \<Rightarrow> None
           | Some v \<Rightarrow>
               (case setp rcd nm v of
                  None \<Rightarrow> None
                | Some rcd' \<Rightarrow> reduceLoad e s this base lds flds rest rcd'))
      | Some (Attribute (HasManyBy m foreignKey otherKey)) \<Rightarrow>
          (case loadHasManyByRelation e s base m foreignKey otherKey relation of
             None \<Rightarrow> None
           | Some v \<Rightarrow>
               (case setp rcd nm v of
                  None \<Rightarrow> None
                | Some rcd' \<Rightarrow> reduceLoad e s this base lds flds rest rcd'))
      | _ \<Rightarrow>
          (case forEachField e s this base lds nm flds rcd of
             None \<Rightarrow> None
           | Some rcd' \<Rightarrow> reduceLoad e s this base lds flds rest rcd'))"
| "forEachField e s this base lds nm [] rcd = Some rcd"
| "forEachField e s this base lds nm (kf # others) rcd =
     (case snd kf of
        Nested sub \<Rightarrow>
          (if map_of sub nm \<noteq> None
           then (case loadRelations e s this base (Some lds) (getp (own_props rcd) (fst kf)) (Some sub) of
                   None \<Rightarrow> None
                 | Some v \<Rightarrow>
                     (case setp rcd (fst kf) v of
                        None \<Rightarrow> None
                      | Some rcd' \<Rightarrow> forEachField e s this base lds nm others rcd'))
           else forEachField e s this base lds nm others rcd)
      | Attribute a \<Rightarrow>
          (if truthy (getp (attr_members a) nm)
           then (case loadRelations_data base (relation_names lds)
                        (getp (own_props rcd) (fst kf)) (attr_members a) of
                   None \<Rightarrow> None
                 | Some v \<Rightarrow>
                     (case setp rcd (fst kf) v of
                        None \<Rightarrow> None
                      | Some rcd' \<Rightarrow> forEachField e s this base lds nm others rcd'))
           else forEachField e s this base lds nm others rcd))"
| "loadHasOneRelation e s rcd m foreignKey relation =
     (case resolveRelation e m of
        None \<Rightarrow> None
      | Some ent \<Rightarrow>
          (case new_Repo e ent False of
             None \<Rightarrow> None
           | Some q \<Rightarrow>
               (case addConstraint_with (\<lambda>q'. count e s q')
                       (Repo_where (WhereField foreignKey (getp rcd ''id'')) q) relation of
                  None \<Rightarrow> None
                | Some q' \<Rightarrow> first e s q' Undefined)))"
| "loadBelongsToRelation e s rcd m foreignKey relation =
     (case resolveRelation e m of
        None \<Rightarrow> None
      | Some ent \<Rightarrow>
          (case new_Repo e ent False of
             None \<Rightarrow> None
           | Some q \<Rightarrow>
               (case addConstraint_with (\<lambda>q'. count e s q') q relation of
                  None \<Rightarrow> None
                | Some q' \<Rightarrow> first e s q' (getp rcd foreignKey))))"
| "loadHasManyRelation e s rcd m foreignKey relation =
     (case resolveRelation e m of
        None \<Rightarrow> None
      | Some ent \<Rightarrow>
          (case new_Repo e ent False of
             None \<Rightarrow> None
           | Some q \<Rightarrow>
               (case addConstraint_with (\<lambda>q'. count e s q')
                       (Repo_where (WhereField foreignKey (getp rcd ''id'')) q) relation of
                  None \<Rightarrow> None
                | Some q' \<Rightarrow> map_option Arr (get e s q'))))"
| "loadHasManyByRelation e s rcd m foreignKey otherKey relation =
     (case resolveRelation e m of
        None \<Rightarrow> None
      | Some ent \<Rightarrow>
          (case getp rcd foreignKey of
             Arr ids \<Rightarrow>
               map_option Arr (those (map (\<lambda>i.
                 (case new_Repo e ent False of
                    None \<Rightarrow> None
                  | Some q \<Rightarrow>
                      (case addConstraint_with (\<lambda>q'. count e s q')
                              (Repo_where (WhereField otherKey i) q) relation of
                         None \<Rightarrow> None
                       | Some q' \<Rightarrow> first e s q' Undefined))) ids))
           | _ \<Rightarrow> None))"
| "count e s this =
     (case get e s (this\<lparr>wrap := False\<rparr>) of
        None \<Rightarrow> None
      | Some collection \<Rightarrow> Some (length collection, this\<lparr>wrap := False\<rparr>))"
| "get e s this =
     (case Query_get s (query this) of
        None \<Rightarrow> None
      | Some collection \<Rightarrow> collect e s this collection)"
| "first e s this ident =
     (case Query_first s (query this) ident of
        None \<Rightarrow> None
      | Some queryItem \<Rightarrow> item e s this queryItem)"
| "item e s this queryItem =
     (if \<not> truthy queryItem then Some Null
      else (case (if load this \<noteq> []
                  then loadRelations e s this (own_props queryItem) None Undefined None
                  else Some queryItem) of
              None \<Rightarrow> None
            | Some it \<Rightarrow>
                Some (if \<not> wrap this then it else Instance (entity (rentity this)) it)))"
| "collect e s this collection =
     (if collection = [] then Some []
      else (case (if load this \<noteq> []
                  then those (map (\<lambda>data. loadRelations e s this data None Undefined None) collection)
                  else Some (map Obj collection)) of
              None \<Rightarrow> None
            | Some items \<Rightarrow>
                Some (if \<not> wrap this then items
                      else map (Instance (entity (rentity this))) items)))"
  by pat_completeness auto


text \<open>\<^verbatim>\<open>Repo.addConstraint(query, relation)\<close>, with \<^verbatim>\<open>query.count()\<close> in its place.\<close>

definition addConstraint :: "Env \<Rightarrow> State \<Rightarrow> Repo \<Rightarrow> Relation \<Rightarrow> Repo option" where
  "addConstraint e s q relation = addConstraint_with (\<lambda>q'. count e s q') q relation"

text \<open>
  \<^verbatim>\<open>Repo.hasRelation(record, name, constraint, count)\<close>: a number, or a comparison
  operator with a number as \<^verbatim>\<open>count\<close>, becomes a callback on \<^verbatim>\<open>query.count()\<close>; the
  relation is then loaded and tested with \<^verbatim>\<open>!_.isEmpty(data[name])\<close>.
\<close>

definition hasRelation ::
  "Env \<Rightarrow> State \<Rightarrow> Repo \<Rightarrow> Record \<Rightarrow> string \<Rightarrow> constraint \<Rightarrow> jsval \<Rightarrow> bool option" where
  "hasRelation e s this rcd nm c cnt =
     (let c' =
        (case c of
           NotCallable (Num n) \<Rightarrow> Callback [] (CountIs Equal n)
         | NotCallable (Str op) \<Rightarrow>
             (case cnt of
                Num k \<Rightarrow>
                  (if op = ''>'' then Callback [] (CountIs Greater k)
                   else if op = ''>='' then Callback [] (CountIs GreaterEq k)
                   else if op = ''<'' then Callback [] (CountIs Less k)
                   else if op = ''<='' then Callback [] (CountIs LessEq k)
                   else c)
              | _ \<Rightarrow> c)
         | _ \<Rightarrow> c)
      in case loadRelations e s this rcd (Some [(nm, c')]) Undefined None of
           None \<Rightarrow> None
         | Some data \<Rightarrow> Some (\<not> isEmpty (getp (own_props data) nm)))"

text \<open>
  \<^verbatim>\<open>Repo.addHasConstraint(name, constraint, count, existence)\<close>: every record of the
  entity is scanned with \<^verbatim>\<open>hasRelation\<close>, the primary keys of those that answer
  \<open>existence\<close> are collected, and the query gets the predicate that the primary key is
  one of them.
\<close>

definition addHasConstraint ::
  "Env \<Rightarrow> State \<Rightarrow> Repo \<Rightarrow> string \<Rightarrow> constraint \<Rightarrow> jsval \<Rightarrow> bool \<Rightarrow> Repo option" where
  "addHasConstraint e s this nm c cnt existence =
     (case model_of e (rname this) of
        None \<Rightarrow> None
      | Some m \<Rightarrow>
          (case Query_get s (new_Query (rname this)) of
             None \<Rightarrow> None
           | Some items \<Rightarrow>
               (case those (map (\<lambda>item. hasRelation e s this item nm c cnt) items) of
                  None \<Rightarrow> None
                | Some answers \<Rightarrow>
                    Some (Repo_where
                            (WhereTest (primaryKey m)
                               (includes_val
                                  (map (\<lambda>(item, answer). getp item (primaryKey m))
                                     (filter (\<lambda>(item, answer). answer = existence)
                                        (zip items answers)))))
                            this))))"

text \<open>\<^verbatim>\<open>Repo.has\<close> and \<^verbatim>\<open>Repo.hasNot\<close>.\<close>

definition has :: "Env \<Rightarrow> State \<Rightarrow> Repo \<Rightarrow> string \<Rightarrow> constraint \<Rightarrow> jsval \<Rightarrow> Repo option" where
  "has e s this nm c cnt = addHasConstraint e s this nm c cnt True"

definition hasNot :: "Env \<Rightarrow> State \<Rightarrow> Repo \<Rightarrow> string \<Rightarrow> constraint \<Rightarrow> jsval \<Rightarrow> Repo option" where
  "hasNot e s this nm c cnt = addHasConstraint e s this nm c cnt False"

text \<open>
  The records of \<open>items\<close> that refer to the record \<open>p\<close>: their field \<open>fk\<close> holds the value
  of the field \<open>pk\<close> of \<open>p\<close>.
\<close>

definition related_by :: "string \<Rightarrow> string \<Rightarrow> Record list \<Rightarrow> Record \<Rightarrow> Record list" where
  "related_by fk pk items p = filter (\<lambda>c. strict_eq (getp c fk) (getp p pk)) items"

text \<open>
  What \<^verbatim>\<open>get\<close> makes of a stored record when no relation is loaded: the record, or the
  model instance built from it when the instance wraps its results.
\<close>

definition as_result :: "Repo \<Rightarrow> Record \<Rightarrow> jsval" where
  "as_result this r = (if wrap this then Instance (entity (rentity this)) (Obj r) else Obj r)"

text \<open>
  What it means that \<^verbatim>\<open>has\<close> and \<^verbatim>\<open>hasNot\<close> select by a property \<open>A\<close> of the records:
  on the repository \<open>this\<close>, whose table holds \<open>items\<close>, \<^verbatim>\<open>has(name, constraint, count)\<close>
  followed by \<^verbatim>\<open>get()\<close> returns exactly the records that have the property, and
  \<^verbatim>\<open>hasNot(name, constraint, count)\<close> followed by \<^verbatim>\<open>get()\<close> exactly those that do not, both
  in table order.
\<close>

definition has_selects ::
  "Env \<Rightarrow> State \<Rightarrow> Repo \<Rightarrow> string \<Rightarrow> constraint \<Rightarrow> jsval \<Rightarrow> Record list \<Rightarrow> (Record \<Rightarrow> bool) \<Rightarrow> bool" where
  "has_selects e s this nm c cnt items A \<longleftrightarrow>
     (\<exists>r. has e s this nm c cnt = Some r
         \<and> get e s r = Some (map (as_result this) (filter A items)))
     \<and> (\<exists>r. hasNot e s this nm c cnt = Some r
         \<and> get e s r = Some (map (as_result this) (filter (\<lambda>p. \<not> A p) items)))"

section \<open>Writing: \<^verbatim>\<open>save\<close>, \<^verbatim>\<open>create\<close>, \<^verbatim>\<open>insert\<close>, \<^verbatim>\<open>update\<close>\<close>

text \<open>\<^verbatim>\<open>Repo.fill(data, entity)\<close>.\<close>

definition fill :: "Env \<Rightarrow> Record \<Rightarrow> string \<Rightarrow> jsval option" where
  "fill e data ent =
     (case model_of e ent of
        None \<Rightarrow> None
      | Some m \<Rightarrow> buildRecord data (model_fields m) (Obj []))"

text \<open>The \<^verbatim>\<open>method\<close> of \<^verbatim>\<open>save\<close>, and \<^verbatim>\<open>query[method](records)\<close>.\<close>

datatype save_method = Create | Insert

definition Query_write :: "save_method \<Rightarrow> Query \<Rightarrow> Table \<Rightarrow> State \<Rightarrow> State" where
  "Query_write m q records state =
     (case m of Create \<Rightarrow> Query_create q records state | Insert \<Rightarrow> Query_insert q records state)"

text \<open>\<^verbatim>\<open>_.mapValues(data, record => this.fill(record, entity))\<close>.\<close>

definition fill_all :: "Env \<Rightarrow> Table \<Rightarrow> string \<Rightarrow> Table option" where
  "fill_all e data ent =
     those (map (\<lambda>(k, rcd). map_option (\<lambda>filled. (k, own_props filled)) (fill e rcd ent)) data)"

text \<open>The \<^verbatim>\<open>_.forEach(normalizedData, ...)\<close> of \<^verbatim>\<open>save\<close>, one entity after the other.\<close>

fun save_each :: "Env \<Rightarrow> Repo \<Rightarrow> save_method \<Rightarrow> NormalizedData \<Rightarrow> State \<Rightarrow> State option" where
  "save_each e this m [] s = Some s"
| "save_each e this m ((ent, data) # rest) s =
     (case fill_all e data ent of
        None \<Rightarrow> None
      | Some filledData \<Rightarrow>
          save_each e this m rest
            (Query_write m (if ent = rname this then query this else new_Query ent) filledData s))"

text \<open>
  \<^verbatim>\<open>Repo.save(method, data)\<close>; \<^verbatim>\<open>this.normalize(data)\<close> is
  \<^verbatim>\<open>this.model(this.name).normalize(data)\<close>. In the first branch the normalized data
  handed to \<^verbatim>\<open>this.query[method]\<close> is the empty map.
\<close>

definition save :: "Env \<Rightarrow> Repo \<Rightarrow> save_method \<Rightarrow> jsval \<Rightarrow> State \<Rightarrow> State option" where
  "save e this m data s =
     (case model_of e (rname this) of
        None \<Rightarrow> None
      | Some _ \<Rightarrow>
          (let normalizedData = normalizer e (rname this) data in
           if m = Create \<and> normalizedData = []
           then Some (Query_write m (query this) [] s)
           else save_each e this m normalizedData s))"

text \<open>\<^verbatim>\<open>Repo.create(data)\<close> and the static \<^verbatim>\<open>Repo.create(state, entity, data)\<close>.\<close>

definition create :: "Env \<Rightarrow> Repo \<Rightarrow> jsval \<Rightarrow> State \<Rightarrow> State option" where
  "create e this data s = save e this Create data s"

definition Repo_create :: "Env \<Rightarrow> State \<Rightarrow> string \<Rightarrow> jsval \<Rightarrow> State option" where
  "Repo_create e s ent data =
     (case new_Repo e ent True of None \<Rightarrow> None | Some this \<Rightarrow> create e this data s)"

text \<open>\<^verbatim>\<open>Repo.insert(data)\<close>.\<close>

definition insert_data :: "Env \<Rightarrow> Repo \<Rightarrow> jsval \<Rightarrow> State \<Rightarrow> State option" where
  "insert_data e this data s = save e this Insert data s"

text \<open>\<^verbatim>\<open>!condition\<close>: a function is truthy.\<close>

fun no_condition :: "Condition \<Rightarrow> bool" where
  "no_condition (Key v) = (\<not> truthy v)"
| "no_condition (Predicate p) = False"

text \<open>
  \<^verbatim>\<open>Repo.update(data, condition)\<close>; a call without a condition passes
  \<open>Key Undefined\<close>. \<^verbatim>\<open>data[pk] && this.query.update(data, data[pk])\<close> runs the update
  when \<^verbatim>\<open>data[pk]\<close> is truthy.
\<close>

definition update :: "Repo \<Rightarrow> Record \<Rightarrow> Condition \<Rightarrow> State \<Rightarrow> State option" where
  "update this data condition s =
     (if no_condition condition
      then (if truthy (getp data (primaryKey (rentity this)))
            then Query_update (query this) data (Key (getp data (primaryKey (rentity this)))) s
            else Some s)
      else Query_update (query this) data condition s)"

text \<open>The static \<^verbatim>\<open>Repo.update(state, entity, data, condition)\<close>.\<close>

definition Repo_update :: "Env \<Rightarrow> State \<Rightarrow> string \<Rightarrow> Record \<Rightarrow> Condition \<Rightarrow> State option" where
  "Repo_update e s ent data condition =
     (case new_Repo e ent True of None \<Rightarrow> None | Some this \<Rightarrow> update this data condition s)"

section \<open>Schemas as JavaScript objects, and the record of section 4.4.2\<close>

text \<open>
  The keys of a JavaScript object are unique: a schema is well formed when no group of
  fields names a field twice.
\<close>

fun wf_fields :: "Fields \<Rightarrow> bool" where
  "wf_fields [] = True"
| "wf_fields ((name, Attribute a) # flds) = (name \<notin> fst ` set flds \<and> wf_fields flds)"
| "wf_fields ((name, Nested sub) # flds) = (name \<notin> fst ` set flds \<and> wf_fields sub \<and> wf_fields flds)"

text \<open>
  The record that default filling is specified to produce (section 4.4.2 of the spec):
  every field of the schema in turn, with the input's value when the input has one, else
  the default of the attribute; a nested group of fields gives the nested record filled
  from the properties of the input's value at that field.
\<close>

function filled :: "Record \<Rightarrow> Fields \<Rightarrow> Record" where
  "filled data [] = []"
| "filled data ((name, Attribute attr) # flds) =
     (name, if getp data name \<noteq> Undefined then getp data name else attr_default attr) # filled data flds"
| "filled data ((name, Nested sub) # flds) =
     (name, Obj (filled (own_props (getp data name)) sub)) # filled data flds"
  by pat_completeness auto
termination
  by (relation "measure (\<lambda>(data, flds). fields_size flds)") auto

text \<open>
  Paths into nested values and schemas. \<open>lookup_path v [a, b]\<close> is the value at
  \<^verbatim>\<open>v.a.b\<close>, \<^verbatim>\<open>undefined\<close> when a step has no such property; \<open>field_at flds [a, b]\<close> is
  the field \<open>b\<close> of the nested group \<open>a\<close> of the schema, when there is one.
\<close>

fun lookup_path :: "jsval \<Rightarrow> string list \<Rightarrow> jsval" where
  "lookup_path v [] = v"
| "lookup_path v (k # ks) = lookup_path (getp (own_props v) k) ks"

fun field_at :: "Fields \<Rightarrow> string list \<Rightarrow> field option" where
  "field_at flds [] = None"
| "field_at flds [k] = map_of flds k"
| "field_at flds (k # k' # ks) =
     (case map_of flds k of Some (Nested sub) \<Rightarrow> field_at sub (k' # ks) | _ \<Rightarrow> None)"


section \<open>Relation loading on a store of objects\<close>

text \<open>
  The functions above pass records as values, so they cannot show which object an
  assignment of \<^verbatim>\<open>loadRelations\<close> reaches. Here \<^verbatim>\<open>loadRelations\<close> is embedded a second time,
  over a store of objects: an object lives at an address, and a property holds a value
  that is not an object, or the address of an object. The records of the state are such
  objects, and a query hands out the stored records themselves.
\<close>

type_synonym addr = nat

datatype ref_val = Val jsval | Ref addr

type_synonym heap_obj = "(string \<times> ref_val) list"

type_synonym heap = "heap_obj list"

text \<open>Truthiness, \<^verbatim>\<open>target[key]\<close> and \<^verbatim>\<open>target[key] = v\<close> on the store of objects.\<close>

fun truthy_ref :: "ref_val \<Rightarrow> bool" where
  "truthy_ref (Val v) = truthy v"
| "truthy_ref (Ref a) = True"

fun read_prop :: "heap \<Rightarrow> ref_val \<Rightarrow> string \<Rightarrow> ref_val" where
  "read_prop h (Ref a) k =
     (if a < length h then (case map_of (h ! a) k of Some v \<Rightarrow> v | None \<Rightarrow> Val Undefined)
      else Val Undefined)"
| "read_prop h (Val v) k = Val Undefined"

fun write_prop :: "heap \<Rightarrow> ref_val \<Rightarrow> string \<Rightarrow> ref_val \<Rightarrow> heap option" where
  "write_prop h (Ref a) k v =
     (if a < length h then Some (h[a := AList.update k v (h ! a)]) else None)"
| "write_prop h (Val u) k v = None"

text \<open>
  The four loaders of \<^verbatim>\<open>loadRelations\<close> (\<^verbatim>\<open>this.loadHasOneRelation(base, attr, relation)\<close>
  and its siblings), as one parameter: from the store, the base record, the attribute and
  the relation to the loaded value and the store afterwards.
\<close>

type_synonym loader = "heap \<Rightarrow> addr \<Rightarrow> attribute \<Rightarrow> Relation \<Rightarrow> (ref_val \<times> heap) option"

text \<open>
  \<open>loadRelations_data\<close> on the store of objects: the schema and its members are values
  as before, the records are objects of the store.
\<close>

function
  loadRelations_data_heap :: "heap \<Rightarrow> addr \<Rightarrow> string list \<Rightarrow> ref_val \<Rightarrow> Record \<Rightarrow> (ref_val \<times> heap) option"
and reduceLoad_data_heap :: "heap \<Rightarrow> addr \<Rightarrow> string list \<Rightarrow> Record \<Rightarrow> string list \<Rightarrow> ref_val \<Rightarrow> (ref_val \<times> heap) option"
and forEachMember_heap :: "heap \<Rightarrow> addr \<Rightarrow> string list \<Rightarrow> string \<Rightarrow> Record \<Rightarrow> ref_val \<Rightarrow> heap option"
where
  "loadRelations_data_heap h base names rcd members =
     (if truthy_ref rcd then reduceLoad_data_heap h base names members names rcd
      else if base < length h
      then reduceLoad_data_heap (h @ [h ! base]) base names members names (Ref (length h))
      else None)"
| "reduceLoad_data_heap h base names members [] rcd = Some (rcd, h)"
| "reduceLoad_data_heap h base names members (nm # rest) rcd =
     (case forEachMember_heap h base names nm members rcd of
        None \<Rightarrow> None
      | Some h1 \<Rightarrow> reduceLoad_data_heap h1 base names members rest rcd)"
| "forEachMember_heap h base names nm [] rcd = Some h"
| "forEachMember_heap h base names nm (kf # others) rcd =
     (case snd kf of
        Undefined \<Rightarrow> None
      | Null \<Rightarrow> None
      | Obj r \<Rightarrow>
          (if truthy (getp r nm)
           then (case loadRelations_data_heap h base names (read_prop h rcd (fst kf)) r of
                   None \<Rightarrow> None
                 | Some (v, h1) \<Rightarrow>
                     (case write_prop h1 rcd (fst kf) v of
                        None \<Rightarrow> None
                      | Some h2 \<Rightarrow> forEachMember_heap h2 base names nm others rcd))
           else forEachMember_heap h base names nm others rcd)
      | _ \<Rightarrow> forEachMember_heap h base names nm others rcd)"
  by pat_completeness auto
termination loadRelations_data_heap
  apply (relation "inv_image (less_than <*lex*> less_than)
    (case_sum
      (\<lambda>(h, base, names, rcd, members). (3 * members_size members + 2, 0))
      (case_sum
        (\<lambda>(h, base, names, members, remaining, rcd). (3 * members_size members + 1, length remaining))
        (\<lambda>(h, base, names, nm, members, rcd). (3 * members_size members, 0))))")
  apply auto
  done

declare loadRelations_data_heap.simps [simp del] reduceLoad_data_heap.simps [simp del]
  forEachMember_heap.simps [simp del]

text \<open>
  \<^verbatim>\<open>loadRelations(base, load, record, fields)\<close> with \<^verbatim>\<open>load\<close> and \<^verbatim>\<open>fields\<close> given and
  \<^verbatim>\<open>record\<close> \<^verbatim>\<open>undefined\<close> when left out. \<^verbatim>\<open>record || { ...base }\<close> allocates the copy of
  \<open>base\<close> at a new address: its properties hold what the properties of \<open>base\<close> hold, an
  address included. The loop over the relations and the loop over the fields are as in
  \<open>reduceLoad\<close> and \<open>forEachField\<close>, with each assignment a write to the store.
\<close>

function
  loadRelations_heap :: "loader \<Rightarrow> heap \<Rightarrow> addr \<Rightarrow> Relation list \<Rightarrow> ref_val \<Rightarrow> Fields \<Rightarrow> (ref_val \<times> heap) option"
and reduceLoad_heap :: "loader \<Rightarrow> heap \<Rightarrow> addr \<Rightarrow> Relation list \<Rightarrow> Fields \<Rightarrow> Relation list \<Rightarrow> ref_val \<Rightarrow> (ref_val \<times> heap) option"
and forEachField_heap :: "loader \<Rightarrow> heap \<Rightarrow> addr \<Rightarrow> Relation list \<Rightarrow> string \<Rightarrow> Fields \<Rightarrow> ref_val \<Rightarrow> heap option"
where
  "loadRelations_heap ld h base lds rcd flds =
     (if truthy_ref rcd then reduceLoad_heap ld h base lds flds lds rcd
      else if base < length h
      then reduceLoad_heap ld (h @ [h ! base]) base lds flds lds (Ref (length h))
      else None)"
| "reduceLoad_heap ld h base lds flds [] rcd = Some (rcd, h)"
| "reduceLoad_heap ld h base lds flds (relation # rest) rcd =
     (let nm = hd (split_dot (fst relation)) in
      case map_of flds nm of
        Some (Attribute (Attr v)) \<Rightarrow> reduceLoad_heap ld h base lds flds rest rcd
      | Some (Attribute attr) \<Rightarrow>
          (case ld h base attr relation of
             None \<Rightarrow> None
           | Some (v, h1) \<Rightarrow>
               (case write_prop h1 rcd nm v of
                  None \<Rightarrow> None
                | Some h2 \<Rightarrow> reduceLoad_heap ld h2 base lds flds rest rcd))
      | _ \<Rightarrow>
          (case forEachField_heap ld h base lds nm flds rcd of
             None \<Rightarrow> None
           | Some h1 \<Rightarrow> reduceLoad_heap ld h1 base lds flds rest rcd))"
| "forEachField_heap ld h base lds nm [] rcd = Some h"
| "forEachField_heap ld h base lds nm (kf # others) rcd =
     (case snd kf of
        Nested sub \<Rightarrow>
          (if map_of sub nm \<noteq> None
           then (case loadRelations_heap ld h base lds (read_prop h rcd (fst kf)) sub of
                   None \<Rightarrow> None
                 | Some (v, h1) \<Rightarrow>
                     (case write_prop h1 rcd (fst kf) v of
                        None \<Rightarrow> None
                      | Some h2 \<Rightarrow> forEachField_heap ld h2 base lds nm others rcd))
           else forEachField_heap ld h base lds nm others rcd)
      | Attribute a \<Rightarrow>
          (if truthy (getp (attr_members a) nm)
           then (case loadRelations_data_heap h base (relation_names lds)
                        (read_prop h rcd (fst kf)) (attr_members a) of
                   None \<Rightarrow> None
                 | Some (v, h1) \<Rightarrow>
                     (case write_prop h1 rcd (fst kf) v of
                        None \<Rightarrow> None
                      | Some h2 \<Rightarrow> forEachField_heap ld h2 base lds nm others rcd))
           else forEachField_heap ld h base lds nm others rcd))"
  by pat_completeness auto
termination loadRelations_heap
  apply (relation "inv_image (less_than <*lex*> less_than)
    (case_sum
      (\<lambda>(ld, h, base, lds, rcd, flds). (3 * fields_size flds + 2, 0))
      (case_sum
        (\<lambda>(ld, h, base, lds, flds, remaining, rcd). (3 * fields_size flds + 1, length remaining))
        (\<lambda>(ld, h, base, lds, nm, flds, rcd). (3 * fields_size flds, 0))))")
  apply auto
  done

declare loadRelations_heap.simps [simp del] reduceLoad_heap.simps [simp del]
  forEachField_heap.simps [simp del]

text \<open>
  A primary key is a number or a string (\<^verbatim>\<open>id: string | number\<close> in the source).
\<close>

fun is_key :: "jsval \<Rightarrow> bool" where
  "is_key (Num n) = True"
| "is_key (Str s) = True"
| "is_key _ = False"

section \<open>Example data\<close>

definition User :: model where
  "User = \<lparr>entity = ''users'', primaryKey = ''id'',
     model_fields =
       [(''id'', Attribute (Attr Null)),
        (''name'', Attribute (Attr (Str ''anonymous''))),
        (''profile'', Attribute (HasOne (ModelClass ''profiles'') ''user_id'')),
        (''posts'', Attribute (HasMany (ModelClass ''posts'') ''user_id'')),
        (''settings'',
           Nested [(''theme'', Attribute (Attr (Str ''light''))),
                   (''notify'', Nested [(''email'', Attribute (Attr (Bool True)))])])]\<rparr>"

definition users_env :: Env where
  "users_env = \<lparr>models = [(''users'', User)], globalName = [], normalizer = (\<lambda>_ _. [])\<rparr>"

definition Post :: model where
  "Post = \<lparr>entity = ''posts'', primaryKey = ''id'',
     model_fields =
       [(''id'', Attribute (Attr Null)),
        (''title'', Attribute (Attr (Str []))),
        (''user_id'', Attribute (Attr Null)),
        (''author'', Attribute (BelongsTo (ModelName ''users'') ''user_id'')),
        (''comments'', Attribute (HasMany (ModelClass ''comments'') ''post_id''))]\<rparr>"

definition Comment :: model where
  "Comment = \<lparr>entity = ''comments'', primaryKey = ''id'',
     model_fields =
       [(''id'', Attribute (Attr Null)),
        (''post_id'', Attribute (Attr Null)),
        (''post'', Attribute (BelongsTo (ModelClass ''posts'') ''post_id''))]\<rparr>"

definition Profile :: model where
  "Profile = \<lparr>entity = ''profiles'', primaryKey = ''id'',
     model_fields =
       [(''id'', Attribute (Attr Null)),
        (''user_id'', Attribute (Attr Null))]\<rparr>"

definition Member :: model where
  "Member = \<lparr>entity = ''members'', primaryKey = ''uid'',
     model_fields =
       [(''uid'', Attribute (Attr Null)),
        (''profile'', Attribute (HasOne (ModelClass ''profiles'') ''user_id'')),
        (''profiles'', Attribute (HasMany (ModelClass ''profiles'') ''user_id''))]\<rparr>"

definition blog_env :: Env where
  "blog_env = \<lparr>models = [(''users'', User), (''posts'', Post), (''comments'', Comment),
       (''profiles'', Profile), (''members'', Member)],
     globalName = [], normalizer = (\<lambda>_ _. [])\<rparr>"

definition blog_state :: State where
  "blog_state =
     [(''users'', [(''1'', [(''id'', Num 1), (''name'', Str ''Ann'')])]),
      (''posts'',
         [(''0'', [(''id'', Num 0), (''title'', Str ''Zero''), (''user_id'', Num 1)]),
          (''1'', [(''id'', Num 1), (''title'', Str ''One''), (''user_id'', Num 1)]),
          (''2'', [(''id'', Num 2), (''title'', Str ''Two''), (''user_id'', Num 1)])]),
      (''comments'',
         [(''1'', [(''id'', Num 1), (''post_id'', Num 1)]),
          (''2'', [(''id'', Num 2), (''post_id'', Num 1)]),
          (''3'', [(''id'', Num 3), (''post_id'', Num 2)])]),
      (''profiles'', [(''10'', [(''id'', Num 10), (''user_id'', Num 1)])]),
      (''members'', [(''1'', [(''uid'', Num 1)])])]"

definition posts_repo :: Repo where
  "posts_repo = \<lparr>rname = ''posts'', rentity = Post, wrap = True, load = [], query = new_Query ''posts''\<rparr>"

definition comments_repo :: Repo where
  "comments_repo = \<lparr>rname = ''comments'', rentity = Comment, wrap = False, load = [],
     query = new_Query ''comments''\<rparr>"

text \<open>
  A user whose schema holds the has-one relation \<^verbatim>\<open>account\<close> inside the group
  \<^verbatim>\<open>settings\<close>. The store: the stored user at address 0, its \<^verbatim>\<open>settings\<close> object (as
  \<^verbatim>\<open>fill\<close> builds it) at address 1, the stored account of the user at address 2. The
  loader finds the stored account and changes nothing.
\<close>

definition account_fields :: Fields where
  "account_fields =
     [(''id'', Attribute (Attr Null)),
      (''settings'', Nested [(''account'', Attribute (HasOne (ModelClass ''accounts'') ''user_id''))])]"

definition account_heap :: heap where
  "account_heap =
     [[(''id'', Val (Num 1)), (''settings'', Ref 1)],
      [(''account'', Val Null)],
      [(''id'', Val (Num 10)), (''user_id'', Val (Num 1))]]"

definition account_loader :: loader where
  "account_loader h base attr relation = Some (Ref 2, h)"

section \<open>Termination of the read path\<close>

lemma split_dot_nonempty: "split_dot nm \<noteq> []"
  by (induction nm) (auto split: list.splits)

lemma split_dot_length: "1 \<le> length (split_dot nm)"
  using split_dot_nonempty [of nm] by (cases "split_dot nm") auto

lemma split_dot_no_dot: "w \<in> set (split_dot nm) \<Longrightarrow> CHR ''.'' \<notin> set w"
  by (induction nm arbitrary: w) (auto split: if_splits list.splits)

lemma split_dot_plain: "CHR ''.'' \<notin> set x \<Longrightarrow> split_dot x = [x]"
  by (induction x) auto

lemma split_dot_prefix:
  "CHR ''.'' \<notin> set x \<Longrightarrow> split_dot (x @ CHR ''.'' # rest) = x # split_dot rest"
  by (induction x) auto

lemma split_dot_join_Cons:
  "\<forall>w \<in> set (x # ws). CHR ''.'' \<notin> set w \<Longrightarrow> split_dot (intersperse ''.'' (x # ws)) = x # ws"
proof (induction ws arbitrary: x)
  case Nil
  then show ?case by (simp add: split_dot_plain)
next
  case (Cons y ys)
  then have "split_dot (intersperse ''.'' (y # ys)) = y # ys" by simp
  moreover from Cons.prems have "CHR ''.'' \<notin> set x" by simp
  ultimately show ?case
    using split_dot_prefix [of x "intersperse ''.'' (y # ys)"] by simp
qed

lemma split_dot_join:
  "ws \<noteq> [] \<Longrightarrow> \<forall>w \<in> set ws. CHR ''.'' \<notin> set w \<Longrightarrow> split_dot (intersperse ''.'' ws) = ws"
  using split_dot_join_Cons by (cases ws) auto

lemma split_dot_shift:
  assumes "length (split_dot nm) \<noteq> 1"
  shows "length (split_dot (join_dot (tl (split_dot nm)))) = length (split_dot nm) - 1"
proof -
  obtain w ws where sp: "split_dot nm = w # ws"
    using split_dot_nonempty [of nm] by (cases "split_dot nm") auto
  with assms have ne: "ws \<noteq> []" by auto
  have "\<forall>v \<in> set ws. CHR ''.'' \<notin> set v"
    using split_dot_no_dot [of _ nm] sp by auto
  with ne have "split_dot (intersperse ''.'' ws) = ws" by (rule split_dot_join)
  with sp show ?thesis by (simp add: join_dot_def)
qed

lemma load_make_call: "load (make_call c r) = load r @ (case c of CallWith nm k \<Rightarrow> [(nm, k)] | _ \<Rightarrow> [])"
  by (cases c) (auto simp: Repo_where_def Repo_orWhere_def Repo_with_def)

lemma load_weight_append: "load_weight (xs @ ys) = load_weight xs + load_weight ys"
  by (simp add: load_weight_def)

lemma load_weight_make_calls:
  "load_weight (load (make_calls calls r)) = load_weight (load r) + sum_list (map call_weight calls)"
  unfolding make_calls_def
proof (induction calls arbitrary: r)
  case Nil
  then show ?case by simp
next
  case (Cons c calls)
  have "load_weight (load (make_call c r)) = load_weight (load r) + call_weight c"
    by (cases c)
      (simp_all add: load_weight_def relation_weight_def Repo_where_def Repo_orWhere_def
         Repo_with_def)
  with Cons show ?case by simp
qed

lemma addConstraint_with_weight:
  assumes "addConstraint_with f qr rel = Some q'"
    and "\<And>calls ret k r'. snd rel = Callback calls ret \<Longrightarrow> length (split_dot (fst rel)) = 1
           \<Longrightarrow> f (make_calls calls qr) = Some (k, r') \<Longrightarrow> load r' = load (make_calls calls qr)"
  shows "load_weight (load q') < load_weight (load qr) + relation_weight rel"
proof (cases "length (split_dot (fst rel)) \<noteq> 1")
  case True
  with assms have "q' = Repo_with (join_dot (tl (split_dot (fst rel)))) NoConstraint qr"
    by (simp add: addConstraint_with_def Let_def)
  moreover have "2 \<le> length (split_dot (fst rel))"
    using True split_dot_length [of "fst rel"] by arith
  ultimately show ?thesis
    using split_dot_shift [OF True]
    by (simp add: Repo_with_def load_weight_append, simp add: load_weight_def relation_weight_def)
next
  case False
  then have one: "length (split_dot (fst rel)) = 1" by simp
  show ?thesis
  proof (cases "snd rel")
    case NoConstraint
    with assms one show ?thesis
      by (simp add: addConstraint_with_def relation_weight_def)
  next
    case (NotCallable v)
    with assms(1) one show ?thesis
      by (auto simp: addConstraint_with_def relation_weight_def Repo_where_def
            split: if_splits jsval.splits)
  next
    case (Callback calls ret)
    show ?thesis
    proof (cases ret)
      case Nothing
      with assms(1) one Callback show ?thesis
        by (auto simp: addConstraint_with_def relation_weight_def load_weight_make_calls)
    next
      case (Returns b)
      with assms(1) one Callback show ?thesis
        by (auto simp: addConstraint_with_def relation_weight_def load_weight_make_calls
              Repo_where_def)
    next
      case (CountIs cmp n)
      with assms(1) one Callback obtain k r' where
        c: "f (make_calls calls qr) = Some (k, r')"
        and q': "q' = Repo_where (WhereRecord (\<lambda>_. compare cmp (int k) n)) r'"
        by (auto simp: addConstraint_with_def split: option.splits)
      from assms(2) [OF Callback one c] have "load r' = load (make_calls calls qr)" .
      with q' Callback show ?thesis
        by (simp add: Repo_where_def relation_weight_def load_weight_make_calls)
    qed
  qed
qed

lemma new_Repo_load: "new_Repo e ent w = Some q \<Longrightarrow> load q = []"
  by (auto simp: new_Repo_def split: option.splits)

lemma load_Repo_where: "load (Repo_where w q) = load q"
  by (simp add: Repo_where_def)

lemma count_call_decreases:
  assumes "load q = []"
  shows "Suc (2 * load_weight (load (make_calls calls q))) < 2 * relation_weight (a, Callback calls ret)"
  using assms split_dot_length [of a]
  by (simp add: load_weight_make_calls relation_weight_def, simp add: load_weight_def)

lemma first_call_decreases:
  assumes "addConstraint_with (count e s) q rel = Some q'"
    and "\<And>calls ret. snd rel = Callback calls ret \<Longrightarrow> length (split_dot (fst rel)) = Suc 0
           \<Longrightarrow> loadRelations_reduceLoad_forEachField_loadHasOneRelation_loadBelongsToRelation_loadHasManyRelation_loadHasManyByRelation_count_get_first_item_collect_dom
                 (Inr (Inl (Inr (Inl (e, s, make_calls calls q)))))"
    and "load q = []"
  shows "Suc (2 * load_weight (load q')) < 2 * relation_weight rel"
proof -
  have "load_weight (load q') < load_weight (load q) + relation_weight rel"
  proof (rule addConstraint_with_weight [OF assms(1)])
    fix calls ret k r'
    assume "snd rel = Callback calls ret" and "length (split_dot (fst rel)) = 1"
      and c: "count e s (make_calls calls q) = Some (k, r')"
    then have "loadRelations_reduceLoad_forEachField_loadHasOneRelation_loadBelongsToRelation_loadHasManyRelation_loadHasManyByRelation_count_get_first_item_collect_dom
                 (Inr (Inl (Inr (Inl (e, s, make_calls calls q)))))"
      using assms(2) by simp
    from count.psimps [OF this] c show "load r' = load (make_calls calls q)"
      by (auto split: option.splits)
  qed
  with assms(3) show ?thesis by (simp add: load_weight_def)
qed

lemma load_weight_Nil: "load_weight [] = 0"
  by (simp add: load_weight_def)

lemma relation_weight_le: "relation_weight r \<le> load_weight (r # rest)"
  by (simp add: load_weight_def)

lemma load_weight_Cons: "load_weight (r # rest) = relation_weight r + load_weight rest"
  by (simp add: load_weight_def)

termination loadRelations
  apply (relation "inv_image (less_than <*lex*> less_than <*lex*> less_than)
    (case_sum
      (case_sum
        (case_sum
          (\<lambda>(e, s, this, base, lds, rcd, flds).
             (2 * load_weight (case lds of None \<Rightarrow> load this | Some l \<Rightarrow> l),
              3 * fields_size (case flds of None \<Rightarrow> model_fields (rentity this) | Some f \<Rightarrow> f) + 2, 0))
          (case_sum
            (\<lambda>(e, s, this, base, lds, flds, remaining, rcd).
               (2 * max (load_weight lds) (load_weight remaining), 3 * fields_size flds + 1, length remaining))
            (\<lambda>(e, s, this, base, lds, nm, flds, rcd).
               (2 * load_weight lds, 3 * fields_size flds, 0))))
        (case_sum
          (\<lambda>(e, s, rcd, m, foreignKey, relation). (2 * relation_weight relation, 0, 0))
          (case_sum
            (\<lambda>(e, s, rcd, m, foreignKey, relation). (2 * relation_weight relation, 0, 0))
            (\<lambda>(e, s, rcd, m, foreignKey, relation). (2 * relation_weight relation, 0, 0)))))
      (case_sum
        (case_sum
          (\<lambda>(e, s, rcd, m, foreignKey, otherKey, relation). (2 * relation_weight relation, 0, 0))
          (case_sum
            (\<lambda>(e, s, this). (2 * load_weight (load this) + 1, 3, 0))
            (\<lambda>(e, s, this). (2 * load_weight (load this) + 1, 2, 0))))
        (case_sum
          (\<lambda>(e, s, this, ident). (2 * load_weight (load this) + 1, 2, 0))
          (case_sum
            (\<lambda>(e, s, this, queryItem). (2 * load_weight (load this) + 1, 1, 0))
            (\<lambda>(e, s, this, collection). (2 * load_weight (load this) + 1, 1, 0))))))")
  apply simp
  apply (simp_all add: load_weight_Cons)
  apply (auto simp: max_def load_Repo_where count_call_decreases load_weight_Nil
           dest!: new_Repo_load)
  apply ((erule first_call_decreases, simp_all add: load_Repo_where)[1])+
  done


text \<open>The equations of the read path are unfolded where a proof asks for them.\<close>

declare loadRelations.simps [simp del] reduceLoad.simps [simp del] forEachField.simps [simp del]
  loadHasOneRelation.simps [simp del] loadBelongsToRelation.simps [simp del]
  loadHasManyRelation.simps [simp del] loadHasManyByRelation.simps [simp del]
  count.simps [simp del] get.simps [simp del] first.simps [simp del] item.simps [simp del]
  collect.simps [simp del]

section \<open>Default filling\<close>

lemma update_fresh: "k \<notin> fst ` set al \<Longrightarrow> AList.update k v al = al @ [(k, v)]"
  by (induction al) auto

lemma getp_fresh: "k \<notin> fst ` set r \<Longrightarrow> getp r k = Undefined"
  using map_of_eq_None_iff [of r k] by (simp add: getp_def)

lemma newData_own_props: "newData data name = own_props (getp data name)"
  by (cases "getp data name") (simp_all add: newData_def)

lemma keys_filled: "map fst (filled data flds) = map fst flds"
  by (induction data flds rule: filled.induct) auto

lemma buildRecord_append:
  "wf_fields flds \<Longrightarrow> fst ` set acc \<inter> fst ` set flds = {} \<Longrightarrow>
   buildRecord data flds (Obj acc) = Some (Obj (acc @ filled data flds))"
proof (induction data flds arbitrary: acc rule: filled.induct)
  case (1 data)
  then show ?case by simp
next
  case (2 data name attr flds)
  from 2(3) have fresh: "name \<notin> fst ` set acc" by auto
  let ?v = "if getp data name \<noteq> Undefined then getp data name else attr_default attr"
  from 2(2) have wf: "wf_fields flds" and nf: "name \<notin> fst ` set flds" by auto
  have disj: "fst ` set (acc @ [(name, ?v)]) \<inter> fst ` set flds = {}"
    using 2(3) nf by auto
  have "buildRecord data ((name, Attribute attr) # flds) (Obj acc)
        = buildRecord data flds (Obj (acc @ [(name, ?v)]))"
    using fresh by (simp add: update_fresh)
  also have "\<dots> = Some (Obj ((acc @ [(name, ?v)]) @ filled data flds))"
    by (rule 2(1) [OF wf disj])
  finally show ?case by simp
next
  case (3 data name sub flds)
  from 3(4) have fresh: "name \<notin> fst ` set acc" by auto
  from 3(3) have wfs: "wf_fields sub" and wf: "wf_fields flds"
    and nf: "name \<notin> fst ` set flds" by auto
  let ?b = "Obj (filled (own_props (getp data name)) sub)"
  have sub: "buildRecord (newData data name) sub (Obj []) = Some ?b"
    using 3(1) [OF wfs, of "[]"] by (simp add: newData_own_props)
  have disj: "fst ` set (acc @ [(name, ?b)]) \<inter> fst ` set flds = {}"
    using 3(4) nf by auto
  have "buildRecord data ((name, Nested sub) # flds) (Obj acc)
        = buildRecord data flds (Obj (acc @ [(name, ?b)]))"
    using fresh sub by (simp add: update_fresh getp_fresh)
  also have "\<dots> = Some (Obj ((acc @ [(name, ?b)]) @ filled data flds))"
    by (rule 3(2) [OF wf disj])
  finally show ?case by simp
qed

lemma buildRecord_filled:
  "wf_fields flds \<Longrightarrow> buildRecord data flds (Obj []) = Some (Obj (filled data flds))"
  using buildRecord_append [of flds "[]" data] by simp

lemma getp_filled_Attribute:
  "wf_fields flds \<Longrightarrow> map_of flds name = Some (Attribute a) \<Longrightarrow>
   getp (filled data flds) name =
     (if getp data name \<noteq> Undefined then getp data name else attr_default a)"
  by (induction data flds rule: filled.induct) (auto simp: getp_def)

lemma getp_filled_Nested:
  "wf_fields flds \<Longrightarrow> map_of flds name = Some (Nested sub) \<Longrightarrow>
   getp (filled data flds) name = Obj (filled (own_props (getp data name)) sub)"
  by (induction data flds rule: filled.induct) (auto simp: getp_def)

lemma wf_fields_sub: "wf_fields flds \<Longrightarrow> map_of flds name = Some (Nested sub) \<Longrightarrow> wf_fields sub"
  by (induction flds rule: wf_fields.induct) (auto split: if_splits)

lemma lookup_path_own_props:
  "p \<noteq> [] \<Longrightarrow> lookup_path (Obj (own_props v)) p = lookup_path v p"
  by (cases p) auto

lemma lookup_filled_Attribute:
  "wf_fields flds \<Longrightarrow> field_at flds p = Some (Attribute a) \<Longrightarrow>
   lookup_path (Obj (filled data flds)) p =
     (if lookup_path (Obj data) p \<noteq> Undefined then lookup_path (Obj data) p else attr_default a)"
proof (induction flds p arbitrary: data rule: field_at.induct)
  case (1 flds)
  then show ?case by simp
next
  case (2 flds k)
  then show ?case by (simp add: getp_filled_Attribute)
next
  case (3 flds k k' ks)
  from 3(3) obtain sub where sub: "map_of flds k = Some (Nested sub)"
    and at: "field_at sub (k' # ks) = Some (Attribute a)"
    by (auto split: option.splits field.splits)
  have wfs: "wf_fields sub"
    using 3(2) sub by (rule wf_fields_sub)
  have "lookup_path (Obj (filled data flds)) (k # k' # ks)
      = lookup_path (Obj (filled (own_props (getp data k)) sub)) (k' # ks)"
    using getp_filled_Nested [OF 3(2) sub, of data] by simp
  also have "\<dots> = (if lookup_path (Obj (own_props (getp data k))) (k' # ks) \<noteq> Undefined
       then lookup_path (Obj (own_props (getp data k))) (k' # ks) else attr_default a)"
    using 3(1) [OF sub refl wfs at] .
  also have "lookup_path (Obj (own_props (getp data k))) (k' # ks) = lookup_path (Obj data) (k # k' # ks)"
    by simp
  finally show ?case .
qed

lemma lookup_filled_Nested:
  "wf_fields flds \<Longrightarrow> field_at flds p = Some (Nested sub) \<Longrightarrow>
   \<exists>nested. lookup_path (Obj (filled data flds)) p = Obj nested \<and> map fst nested = map fst sub"
proof (induction flds p arbitrary: data rule: field_at.induct)
  case (1 flds)
  then show ?case by simp
next
  case (2 flds k)
  then show ?case by (simp add: getp_filled_Nested keys_filled)
next
  case (3 flds k k' ks)
  from 3(3) obtain sub' where sub: "map_of flds k = Some (Nested sub')"
    and at: "field_at sub' (k' # ks) = Some (Nested sub)"
    by (auto split: option.splits field.splits)
  have wfs: "wf_fields sub'"
    using 3(2) sub by (rule wf_fields_sub)
  have "lookup_path (Obj (filled data flds)) (k # k' # ks)
      = lookup_path (Obj (filled (own_props (getp data k)) sub')) (k' # ks)"
    using getp_filled_Nested [OF 3(2) sub, of data] by simp
  with 3(1) [OF sub refl wfs at, of "own_props (getp data k)"] show ?case by simp
qed

text \<open>
  C8. For every input record and every entity whose schema is well formed, \<^verbatim>\<open>fill\<close>
  returns a record that has exactly the fields of the schema, in the schema's order, and
  this at every depth: for every path into the schema that ends at an attribute, the
  record holds at that path the input's value when the input has one there; else the
  declared default of a plain attribute, \<^verbatim>\<open>null\<close> for a has-one or belongs-to field, and
  the empty array for a has-many or has-many-by field. For every path that ends at a
  nested group of fields, the record holds a nested record with exactly the fields of the
  group.
\<close>

theorem fill_defaults:
  assumes "model_of e ent = Some m" and "wf_fields (model_fields m)"
  shows "\<exists>r. fill e data ent = Some (Obj r)
    \<and> map fst r = map fst (model_fields m)
    \<and> (\<forall>p a. field_at (model_fields m) p = Some (Attribute a)
          \<longrightarrow> lookup_path (Obj data) p \<noteq> Undefined
          \<longrightarrow> lookup_path (Obj r) p = lookup_path (Obj data) p)
    \<and> (\<forall>p v. field_at (model_fields m) p = Some (Attribute (Attr v))
          \<longrightarrow> lookup_path (Obj data) p = Undefined \<longrightarrow> lookup_path (Obj r) p = v)
    \<and> (\<forall>p rel k. field_at (model_fields m) p = Some (Attribute (HasOne rel k))
            \<or> field_at (model_fields m) p = Some (Attribute (BelongsTo rel k))
          \<longrightarrow> lookup_path (Obj data) p = Undefined \<longrightarrow> lookup_path (Obj r) p = Null)
    \<and> (\<forall>p rel k ok. field_at (model_fields m) p = Some (Attribute (HasMany rel k))
            \<or> field_at (model_fields m) p = Some (Attribute (HasManyBy rel k ok))
          \<longrightarrow> lookup_path (Obj data) p = Undefined \<longrightarrow> lookup_path (Obj r) p = Arr [])
    \<and> (\<forall>p sub. field_at (model_fields m) p = Some (Nested sub)
          \<longrightarrow> (\<exists>nested. lookup_path (Obj r) p = Obj nested \<and> map fst nested = map fst sub))"
proof -
  let ?r = "filled data (model_fields m)"
  have attr: "\<And>p a. field_at (model_fields m) p = Some (Attribute a) \<Longrightarrow>
      lookup_path (Obj ?r) p =
        (if lookup_path (Obj data) p \<noteq> Undefined then lookup_path (Obj data) p else attr_default a)"
    using assms(2) by (rule lookup_filled_Attribute)
  have h1: "fill e data ent = Some (Obj ?r)"
    using assms by (simp add: fill_def buildRecord_filled)
  have h2: "map fst ?r = map fst (model_fields m)"
    by (rule keys_filled)
  have h3: "\<forall>p a. field_at (model_fields m) p = Some (Attribute a)
          \<longrightarrow> lookup_path (Obj data) p \<noteq> Undefined
          \<longrightarrow> lookup_path (Obj ?r) p = lookup_path (Obj data) p"
    using attr by simp
  have h4: "\<forall>p v. field_at (model_fields m) p = Some (Attribute (Attr v))
          \<longrightarrow> lookup_path (Obj data) p = Undefined \<longrightarrow> lookup_path (Obj ?r) p = v"
    using attr by fastforce
  have h5: "\<forall>p rel k. field_at (model_fields m) p = Some (Attribute (HasOne rel k))
            \<or> field_at (model_fields m) p = Some (Attribute (BelongsTo rel k))
          \<longrightarrow> lookup_path (Obj data) p = Undefined \<longrightarrow> lookup_path (Obj ?r) p = Null"
    using attr by fastforce
  have h6: "\<forall>p rel k ok. field_at (model_fields m) p = Some (Attribute (HasMany rel k))
            \<or> field_at (model_fields m) p = Some (Attribute (HasManyBy rel k ok))
          \<longrightarrow> lookup_path (Obj data) p = Undefined \<longrightarrow> lookup_path (Obj ?r) p = Arr []"
    using attr by fastforce
  have h7: "\<forall>p sub. field_at (model_fields m) p = Some (Nested sub)
          \<longrightarrow> (\<exists>nested. lookup_path (Obj ?r) p = Obj nested \<and> map fst nested = map fst sub)"
    using assms(2) by (simp add: lookup_filled_Nested)
  from h1 h2 h3 h4 h5 h6 h7 show ?thesis
    by (intro exI [of _ ?r] conjI)
qed


theorem fill_defaults_witness:
  "model_of users_env ''users'' = Some User \<and> wf_fields (model_fields User)
   \<and> (\<exists>r. fill users_env
            [(''id'', Num 1), (''posts'', Arr [Num 7]), (''settings'', Obj [(''theme'', Str ''dark'')])]
            ''users'' = Some (Obj r)
        \<and> map fst r = [''id'', ''name'', ''profile'', ''posts'', ''settings'']
        \<and> lookup_path (Obj r) [''id''] = Num 1
        \<and> lookup_path (Obj r) [''name''] = Str ''anonymous''
        \<and> lookup_path (Obj r) [''profile''] = Null
        \<and> lookup_path (Obj r) [''posts''] = Arr [Num 7]
        \<and> lookup_path (Obj r) [''settings'', ''theme''] = Str ''dark''
        \<and> lookup_path (Obj r) [''settings'', ''notify'', ''email''] = Bool True
        \<and> (\<exists>nested. lookup_path (Obj r) [''settings''] = Obj nested
              \<and> map fst nested = [''theme'', ''notify'']))"
proof -
  let ?data = "[(''id'', Num 1), (''posts'', Arr [Num 7]), (''settings'', Obj [(''theme'', Str ''dark'')])]"
  have h1: "model_of users_env ''users'' = Some User"
    by (simp add: model_of_def users_env_def)
  have h2: "wf_fields (model_fields User)"
    by (simp add: User_def)
  from fill_defaults [OF h1 h2, of ?data]
  obtain r where
    r: "fill users_env ?data ''users'' = Some (Obj r)"
    and keys: "map fst r = map fst (model_fields User)"
    and present: "\<And>p a. field_at (model_fields User) p = Some (Attribute a) \<Longrightarrow>
        lookup_path (Obj ?data) p \<noteq> Undefined \<Longrightarrow>
        lookup_path (Obj r) p = lookup_path (Obj ?data) p"
    and plain: "\<And>p v. field_at (model_fields User) p = Some (Attribute (Attr v)) \<Longrightarrow>
        lookup_path (Obj ?data) p = Undefined \<Longrightarrow> lookup_path (Obj r) p = v"
    and single: "\<And>p rel k. field_at (model_fields User) p = Some (Attribute (HasOne rel k))
          \<or> field_at (model_fields User) p = Some (Attribute (BelongsTo rel k)) \<Longrightarrow>
        lookup_path (Obj ?data) p = Undefined \<Longrightarrow> lookup_path (Obj r) p = Null"
    and nested: "\<And>p sub. field_at (model_fields User) p = Some (Nested sub) \<Longrightarrow>
        \<exists>n. lookup_path (Obj r) p = Obj n \<and> map fst n = map fst sub"
    by blast
  have k: "map fst r = [''id'', ''name'', ''profile'', ''posts'', ''settings'']"
    using keys by (simp add: User_def)
  have a: "lookup_path (Obj r) [''id''] = Num 1"
    using present [of "[''id'']" "Attr Null"] by (simp add: User_def getp_def)
  have b: "lookup_path (Obj r) [''name''] = Str ''anonymous''"
    using plain [of "[''name'']" "Str ''anonymous''"] by (simp add: User_def getp_def)
  have c: "lookup_path (Obj r) [''profile''] = Null"
    using single [of "[''profile'']" "ModelClass ''profiles''" "''user_id''"]
    by (simp add: User_def getp_def)
  have d: "lookup_path (Obj r) [''posts''] = Arr [Num 7]"
    using present [of "[''posts'']" "HasMany (ModelClass ''posts'') ''user_id''"]
    by (simp add: User_def getp_def)
  have t: "lookup_path (Obj r) [''settings'', ''theme''] = Str ''dark''"
    using present [of "[''settings'', ''theme'']" "Attr (Str ''light'')"]
    by (simp add: User_def getp_def)
  have n: "lookup_path (Obj r) [''settings'', ''notify'', ''email''] = Bool True"
    using plain [of "[''settings'', ''notify'', ''email'']" "Bool True"]
    by (simp add: User_def getp_def)
  have f: "\<exists>n. lookup_path (Obj r) [''settings''] = Obj n \<and> map fst n = [''theme'', ''notify'']"
    using nested [of "[''settings'']"
        "[(''theme'', Attribute (Attr (Str ''light''))),
          (''notify'', Nested [(''email'', Attribute (Attr (Bool True)))])]"]
    by (simp add: User_def)
  have ex: "\<exists>r. fill users_env ?data ''users'' = Some (Obj r)
        \<and> map fst r = [''id'', ''name'', ''profile'', ''posts'', ''settings'']
        \<and> lookup_path (Obj r) [''id''] = Num 1
        \<and> lookup_path (Obj r) [''name''] = Str ''anonymous''
        \<and> lookup_path (Obj r) [''profile''] = Null
        \<and> lookup_path (Obj r) [''posts''] = Arr [Num 7]
        \<and> lookup_path (Obj r) [''settings'', ''theme''] = Str ''dark''
        \<and> lookup_path (Obj r) [''settings'', ''notify'', ''email''] = Bool True
        \<and> (\<exists>nested. lookup_path (Obj r) [''settings''] = Obj nested
              \<and> map fst nested = [''theme'', ''notify''])"
    by (rule exI [of _ r]) (intro conjI r k a b c d t n f)
  show ?thesis
    by (intro conjI h1 h2 ex)
qed

section \<open>Evaluation on the example data\<close>

lemma new_posts_repo: "new_Repo blog_env ''posts'' True = Some posts_repo"
  by (simp add: new_Repo_def model_of_def blog_env_def posts_repo_def)

lemma show_int_digit:
  "show_int 0 = ''0''" "show_int 1 = ''1''" "show_int 2 = ''2''" "show_int 3 = ''3''"
  by (simp_all add: show_int_def digits.simps digit_char_def)

lemma blog_models:
  "model_of blog_env ''users'' = Some User"
  "model_of blog_env ''posts'' = Some Post"
  "model_of blog_env ''comments'' = Some Comment"
  "model_of blog_env ''profiles'' = Some Profile"
  "model_of blog_env ''members'' = Some Member"
  "model_of blog_env [] = None"
  by (simp_all add: model_of_def blog_env_def)

lemma blog_tables:
  "map_of blog_state ''posts'' =
     Some [(''0'', [(''id'', Num 0), (''title'', Str ''Zero''), (''user_id'', Num 1)]),
           (''1'', [(''id'', Num 1), (''title'', Str ''One''), (''user_id'', Num 1)]),
           (''2'', [(''id'', Num 2), (''title'', Str ''Two''), (''user_id'', Num 1)])]"
  "map_of blog_state ''comments'' =
     Some [(''1'', [(''id'', Num 1), (''post_id'', Num 1)]),
           (''2'', [(''id'', Num 2), (''post_id'', Num 1)]),
           (''3'', [(''id'', Num 3), (''post_id'', Num 2)])]"
  "map_of blog_state ''profiles'' = Some [(''10'', [(''id'', Num 10), (''user_id'', Num 1)])]"
  "map_of blog_state ''members'' = Some [(''1'', [(''uid'', Num 1)])]"
  by (simp_all add: blog_state_def)

section \<open>Writing\<close>

lemma map_of_Query_create:
  "map_of (Query_create q records s) ent = (if ent = qname q then Some records else map_of s ent)"
  by (simp add: Query_create_def update_conv')

text \<open>
  C2. For every registered entity, \<^verbatim>\<open>Repo.create(state, entity, data)\<close> with data that
  normalizes to the empty map still calls the table-level create (\<open>Query_create\<close>, modelled
  from section 4.2 of the spec) with the empty map: afterwards the entity's table is
  empty, whatever it held before, and every other table is as it was.
\<close>

theorem create_empty_clears:
  assumes "model_of e ent = Some m" and "normalizer e ent data = []"
  shows "\<exists>s'. Repo_create e s ent data = Some s'
     \<and> s' = Query_create (new_Query ent) [] s
     \<and> map_of s' ent = Some []
     \<and> (\<forall>other. other \<noteq> ent \<longrightarrow> map_of s' other = map_of s other)"
  using assms
  by (simp add: Repo_create_def create_def save_def new_Repo_def Query_write_def
        map_of_Query_create new_Query_def)

theorem create_empty_clears_witness:
  "model_of blog_env ''posts'' = Some Post \<and> normalizer blog_env ''posts'' (Obj []) = []
   \<and> map_of blog_state ''posts'' \<noteq> Some []
   \<and> (\<exists>s'. Repo_create blog_env blog_state ''posts'' (Obj []) = Some s'
         \<and> map_of s' ''posts'' = Some []
         \<and> map_of s' ''comments'' = map_of blog_state ''comments'')"
proof -
  have h1: "model_of blog_env ''posts'' = Some Post"
    by (simp add: model_of_def blog_env_def)
  have h2: "normalizer blog_env ''posts'' (Obj []) = []"
    by (simp add: blog_env_def)
  have h3: "map_of blog_state ''posts'' \<noteq> Some []"
    by (simp add: blog_state_def)
  from create_empty_clears [OF h1 h2, of blog_state]
  obtain s' where "Repo_create blog_env blog_state ''posts'' (Obj []) = Some s'"
    and "map_of s' ''posts'' = Some []"
    and "\<forall>other. other \<noteq> ''posts'' \<longrightarrow> map_of s' other = map_of blog_state other"
    by blast
  then have "\<exists>s'. Repo_create blog_env blog_state ''posts'' (Obj []) = Some s'
         \<and> map_of s' ''posts'' = Some []
         \<and> map_of s' ''comments'' = map_of blog_state ''comments''"
    by auto
  with h1 h2 h3 show ?thesis by (intro conjI)
qed

text \<open>
  C10. In \<^verbatim>\<open>update(data)\<close> without a condition, the truthiness of the primary-key value
  in \<open>data\<close> decides whether the update runs, not its presence: with the primary key
  present in \<open>data\<close>, a falsy value (for example \<open>0\<close>, the empty string or \<^verbatim>\<open>null\<close>)
  leaves the state as it is, and a truthy value makes the call the update by that key.
\<close>

theorem update_decided_by_truthiness:
  assumes "map_of data (primaryKey (rentity this)) = Some v"
  shows "(\<not> truthy v \<longrightarrow> update this data (Key Undefined) s = Some s)
     \<and> (truthy v \<longrightarrow> update this data (Key Undefined) s = Query_update (query this) data (Key v) s)
     \<and> (v = Num 0 \<or> v = Str [] \<or> v = Null \<longrightarrow> update this data (Key Undefined) s = Some s)"
  using assms by (auto simp: update_def getp_def)

theorem update_decided_by_truthiness_witness:
  "map_of [(''id'', Num 0), (''title'', Str ''New'')] (primaryKey (rentity posts_repo)) = Some (Num 0)
   \<and> map_of blog_state ''posts'' =
       Some [(''0'', [(''id'', Num 0), (''title'', Str ''Zero''), (''user_id'', Num 1)]),
             (''1'', [(''id'', Num 1), (''title'', Str ''One''), (''user_id'', Num 1)]),
             (''2'', [(''id'', Num 2), (''title'', Str ''Two''), (''user_id'', Num 1)])]
   \<and> update posts_repo [(''id'', Num 0), (''title'', Str ''New'')] (Key Undefined) blog_state
       = Some blog_state"
proof -
  have h: "map_of [(''id'', Num 0), (''title'', Str ''New'')] (primaryKey (rentity posts_repo)) = Some (Num 0)"
    by (simp add: posts_repo_def Post_def)
  from update_decided_by_truthiness [OF h, of blog_state]
  have "update posts_repo [(''id'', Num 0), (''title'', Str ''New'')] (Key Undefined) blog_state
       = Some blog_state" by simp
  moreover have "map_of blog_state ''posts'' =
       Some [(''0'', [(''id'', Num 0), (''title'', Str ''Zero''), (''user_id'', Num 1)]),
             (''1'', [(''id'', Num 1), (''title'', Str ''One''), (''user_id'', Num 1)]),
             (''2'', [(''id'', Num 2), (''title'', Str ''Two''), (''user_id'', Num 1)])]"
    by (simp add: blog_state_def)
  ultimately show ?thesis using h by (intro conjI)
qed

text \<open>
  C6 fails on the code. \<^verbatim>\<open>update({id: 0, title: 'New'})\<close> without a condition has the
  primary key in its data, and a post is stored under the key \<open>0\<close>; the call leaves the
  state unchanged, where the update by the key \<open>0\<close> merges the data onto that post (second
  conjunct). With the key \<open>1\<close> the same call does merge (third conjunct).
\<close>

theorem update_zero_key_ignored:
  "Repo_update blog_env blog_state ''posts'' [(''id'', Num 0), (''title'', Str ''New'')] (Key Undefined)
     = Some blog_state
   \<and> map_option (\<lambda>s. map_of s ''posts'')
       (Query_update (new_Query ''posts'') [(''id'', Num 0), (''title'', Str ''New'')] (Key (Num 0)) blog_state)
     = Some (Some [(''0'', [(''id'', Num 0), (''title'', Str ''New''), (''user_id'', Num 1)]),
             (''1'', [(''id'', Num 1), (''title'', Str ''One''), (''user_id'', Num 1)]),
             (''2'', [(''id'', Num 2), (''title'', Str ''Two''), (''user_id'', Num 1)])])
   \<and> map_option (\<lambda>s. map_of s ''posts'')
       (Repo_update blog_env blog_state ''posts'' [(''id'', Num 1), (''title'', Str ''New'')] (Key Undefined))
     = Some (Some [(''0'', [(''id'', Num 0), (''title'', Str ''Zero''), (''user_id'', Num 1)]),
             (''1'', [(''id'', Num 1), (''title'', Str ''New''), (''user_id'', Num 1)]),
             (''2'', [(''id'', Num 2), (''title'', Str ''Two''), (''user_id'', Num 1)])])"
  by (simp add: Repo_update_def new_posts_repo update_def getp_def posts_repo_def Post_def
        Query_update_def new_Query_def blog_state_def show_int_digit merge_def)


section \<open>Counting\<close>

lemma those_length: "those xs = Some ys \<Longrightarrow> length ys = length xs"
  by (induction xs arbitrary: ys) (auto split: option.splits)

text \<open>
  C7 fails on the code as stated: \<^verbatim>\<open>count()\<close> on an instance that wraps its results
  returns the number of posts and leaves the instance with wrapping off.
\<close>

theorem count_turns_wrap_off_counterexample:
  "count blog_env blog_state posts_repo = Some (3, posts_repo\<lparr>wrap := False\<rparr>)
   \<and> wrap posts_repo = True \<and> wrap (posts_repo\<lparr>wrap := False\<rparr>) = False"
  by (simp add: count.simps get.simps collect.simps posts_repo_def blog_state_def Query_get_def
        new_Query_def whereOnRecord_def)

lemma collect_length:
  "collect e s this c = Some xs \<Longrightarrow> length xs = length c"
  by (auto simp: collect.simps split: if_splits option.splits dest: those_length)


text \<open>
  C7, amended. When \<^verbatim>\<open>count()\<close> returns, its number is the length of what \<^verbatim>\<open>get()\<close>
  returns with wrapping off, and the instance is left with wrapping off: the assignment
  \<^verbatim>\<open>this.wrap = false\<close> is not undone, so the wrapping configuration after the call
  equals the one before only when wrapping was already off. A second \<^verbatim>\<open>count()\<close> on the
  instance returns the same.
\<close>

theorem count_leaves_wrap_off:
  assumes "count e s this = Some (n, this')"
  shows "this' = this\<lparr>wrap := False\<rparr> \<and> wrap this' = False
     \<and> (\<exists>c. get e s (this\<lparr>wrap := False\<rparr>) = Some c \<and> n = length c)
     \<and> (wrap this' = wrap this \<longleftrightarrow> \<not> wrap this)
     \<and> count e s this' = Some (n, this')"
proof -
  from assms obtain c where c: "get e s (this\<lparr>wrap := False\<rparr>) = Some c"
    and n: "n = length c" and t: "this' = this\<lparr>wrap := False\<rparr>"
    by (auto simp: count.simps split: option.splits)
  have "count e s this' = Some (n, this')"
    unfolding t by (simp add: count.simps c n)
  with c n t show ?thesis by auto
qed

theorem count_leaves_wrap_off_witness:
  "count blog_env blog_state posts_repo = Some (3, posts_repo\<lparr>wrap := False\<rparr>)
   \<and> wrap posts_repo \<and> \<not> wrap (posts_repo\<lparr>wrap := False\<rparr>)
   \<and> get blog_env blog_state (posts_repo\<lparr>wrap := False\<rparr>)
       = Some [Obj [(''id'', Num 0), (''title'', Str ''Zero''), (''user_id'', Num 1)],
               Obj [(''id'', Num 1), (''title'', Str ''One''), (''user_id'', Num 1)],
               Obj [(''id'', Num 2), (''title'', Str ''Two''), (''user_id'', Num 1)]]"
proof -
  have h: "count blog_env blog_state posts_repo = Some (3, posts_repo\<lparr>wrap := False\<rparr>)"
    by (simp add: count.simps get.simps collect.simps posts_repo_def blog_state_def Query_get_def
          new_Query_def whereOnRecord_def)
  from count_leaves_wrap_off [OF h] have "\<not> wrap (posts_repo\<lparr>wrap := False\<rparr>)"
    by simp
  moreover have "wrap posts_repo" by (simp add: posts_repo_def)
  moreover have "get blog_env blog_state (posts_repo\<lparr>wrap := False\<rparr>)
       = Some [Obj [(''id'', Num 0), (''title'', Str ''Zero''), (''user_id'', Num 1)],
               Obj [(''id'', Num 1), (''title'', Str ''One''), (''user_id'', Num 1)],
               Obj [(''id'', Num 2), (''title'', Str ''Two''), (''user_id'', Num 1)]]"
    by (simp add: get.simps collect.simps posts_repo_def blog_state_def Query_get_def
          new_Query_def whereOnRecord_def)
  ultimately show ?thesis using h by (intro conjI)
qed

section \<open>Resolving relations\<close>

lemma resolveRelation_ModelName:
  "resolveRelation e (ModelName a) = map_option entity (model_of e (globalName e))"
  by (simp add: resolveRelation_def)

lemma addConstraint_with_plain:
  "split_dot nm = [nm] \<Longrightarrow> addConstraint_with f q (nm, NoConstraint) = Some q"
  by (simp add: addConstraint_with_def)

text \<open>
  C4 fails on the code. For a relation whose model is declared by the entity name
  \<^verbatim>\<open>'users'\<close>, \<^verbatim>\<open>resolveRelation\<close> looks up the global \<^verbatim>\<open>name\<close>, not the declared name:
  with the global name empty the lookup fails and the belongs-to loader throws, although
  \<^verbatim>\<open>users\<close> is registered; with the global name \<^verbatim>\<open>'posts'\<close> the loader answers from the
  table of the posts.
\<close>

theorem resolveRelation_reads_global_name:
  "model_of blog_env ''users'' = Some User
   \<and> globalName blog_env = []
   \<and> resolveRelation blog_env (ModelName ''users'') = None
   \<and> loadBelongsToRelation blog_env blog_state
        [(''id'', Num 1), (''title'', Str ''One''), (''user_id'', Num 1)]
        (ModelName ''users'') ''user_id'' (''author'', NoConstraint) = None
   \<and> resolveRelation (blog_env\<lparr>globalName := ''posts''\<rparr>) (ModelName ''users'') = Some ''posts''
   \<and> loadBelongsToRelation (blog_env\<lparr>globalName := ''posts''\<rparr>) blog_state
        [(''id'', Num 1), (''title'', Str ''One''), (''user_id'', Num 1)]
        (ModelName ''users'') ''user_id'' (''author'', NoConstraint)
       = Some (Obj [(''id'', Num 1), (''title'', Str ''One''), (''user_id'', Num 1)])"
proof -
  have g: "globalName blog_env = []"
    by (simp add: blog_env_def)
  have r1: "resolveRelation blog_env (ModelName ''users'') = None"
    by (simp add: resolveRelation_ModelName g blog_models)
  have l1: "loadBelongsToRelation blog_env blog_state
        [(''id'', Num 1), (''title'', Str ''One''), (''user_id'', Num 1)]
        (ModelName ''users'') ''user_id'' (''author'', NoConstraint) = None"
    by (simp add: loadBelongsToRelation.simps r1)
  have m: "model_of (blog_env\<lparr>globalName := ''posts''\<rparr>) ''posts'' = Some Post"
    by (simp add: model_of_def blog_env_def)
  have r2: "resolveRelation (blog_env\<lparr>globalName := ''posts''\<rparr>) (ModelName ''users'') = Some ''posts''"
    by (simp add: resolveRelation_ModelName m Post_def)
  have n: "new_Repo (blog_env\<lparr>globalName := ''posts''\<rparr>) ''posts'' False
     = Some \<lparr>rname = ''posts'', rentity = Post, wrap = False, load = [], query = new_Query ''posts''\<rparr>"
    by (simp add: new_Repo_def m)
  have l2: "loadBelongsToRelation (blog_env\<lparr>globalName := ''posts''\<rparr>) blog_state
        [(''id'', Num 1), (''title'', Str ''One''), (''user_id'', Num 1)]
        (ModelName ''users'') ''user_id'' (''author'', NoConstraint)
       = Some (Obj [(''id'', Num 1), (''title'', Str ''One''), (''user_id'', Num 1)])"
    by (simp add: loadBelongsToRelation.simps first.simps item.simps r2 n
          addConstraint_with_plain Query_first_def new_Query_def blog_tables getp_def
          show_int_digit)
  show ?thesis
    by (intro conjI blog_models(1) g r1 l1 r2 l2)
qed

text \<open>
  C1 fails on the code. The entity \<^verbatim>\<open>members\<close> declares the primary key \<^verbatim>\<open>uid\<close>. For the
  member with \<^verbatim>\<open>uid\<close> 1 a profile with \<^verbatim>\<open>user_id\<close> 1 is stored (third conjunct: the query
  by the primary-key value finds it), but the has-one loader returns \<^verbatim>\<open>null\<close> and the
  has-many loader the empty array: both compare the foreign key with \<^verbatim>\<open>record.id\<close>.
\<close>

theorem loaders_read_id_field:
  "primaryKey Member = ''uid''
   \<and> map_of blog_state ''members'' = Some [(''1'', [(''uid'', Num 1)])]
   \<and> Query_get blog_state (Query_where (WhereField ''user_id'' (getp [(''uid'', Num 1)] ''uid''))
        (new_Query ''profiles''))
       = Some [[(''id'', Num 10), (''user_id'', Num 1)]]
   \<and> loadHasOneRelation blog_env blog_state [(''uid'', Num 1)]
        (ModelClass ''profiles'') ''user_id'' (''profile'', NoConstraint) = Some Null
   \<and> loadHasManyRelation blog_env blog_state [(''uid'', Num 1)]
        (ModelClass ''profiles'') ''user_id'' (''profiles'', NoConstraint) = Some (Arr [])"
proof -
  have pk: "primaryKey Member = ''uid''"
    by (simp add: Member_def)
  have expected: "Query_get blog_state
        (Query_where (WhereField ''user_id'' (getp [(''uid'', Num 1)] ''uid'')) (new_Query ''profiles''))
       = Some [[(''id'', Num 10), (''user_id'', Num 1)]]"
    by (simp add: Query_get_def Query_where_def new_Query_def blog_tables whereOnRecord_def getp_def)
  have r: "resolveRelation blog_env (ModelClass ''profiles'') = Some ''profiles''"
    by (simp add: resolveRelation_def)
  have n: "new_Repo blog_env ''profiles'' False
     = Some \<lparr>rname = ''profiles'', rentity = Profile, wrap = False, load = [],
              query = new_Query ''profiles''\<rparr>"
    by (simp add: new_Repo_def blog_models)
  have actual: "Query_get blog_state
        (Query_where (WhereField ''user_id'' (getp [(''uid'', Num 1)] ''id'')) (new_Query ''profiles''))
       = Some []"
    by (simp add: Query_get_def Query_where_def new_Query_def blog_tables whereOnRecord_def getp_def)
  have one: "loadHasOneRelation blog_env blog_state [(''uid'', Num 1)]
        (ModelClass ''profiles'') ''user_id'' (''profile'', NoConstraint) = Some Null"
    using actual
    by (simp add: loadHasOneRelation.simps first.simps item.simps r n addConstraint_with_plain
          Repo_where_def Query_first_def Query_where_def new_Query_def blog_tables)
  have many: "loadHasManyRelation blog_env blog_state [(''uid'', Num 1)]
        (ModelClass ''profiles'') ''user_id'' (''profiles'', NoConstraint) = Some (Arr [])"
    using actual
    by (simp add: loadHasManyRelation.simps get.simps collect.simps r n addConstraint_with_plain
          Repo_where_def)
  show ?thesis
    by (intro conjI pk blog_tables(4) expected one many)
qed


section \<open>Queries and loaders on any state\<close>

lemma Query_get_new:
  "map_of s ent = Some t \<Longrightarrow> Query_get s (new_Query ent) = Some (map snd t)"
  by (simp add: Query_get_def new_Query_def whereOnRecord_def [abs_def])

lemma Query_get_where1:
  "map_of s ent = Some t \<Longrightarrow>
   Query_get s (Query_where w (new_Query ent)) = Some (filter (\<lambda>r. passes r w) (map snd t))"
  by (simp add: Query_get_def new_Query_def Query_where_def whereOnRecord_def [abs_def])

lemma Query_get_where2:
  "map_of s ent = Some t \<Longrightarrow>
   Query_get s (Query_where w2 (Query_where w1 (new_Query ent)))
     = Some (filter (\<lambda>r. passes r w1 \<and> passes r w2) (map snd t))"
  by (simp add: Query_get_def new_Query_def Query_where_def whereOnRecord_def [abs_def])

lemma get_without_load:
  "load q = [] \<Longrightarrow>
   get e s q = map_option
     (\<lambda>c. if wrap q then map (\<lambda>r. Instance (entity (rentity q)) (Obj r)) c else map Obj c)
     (Query_get s (query q))"
  by (cases "Query_get s (query q)") (auto simp: get.simps collect.simps)

lemma loadHasManyRelation_plain:
  assumes "model_of e ent = Some m" and "map_of s ent = Some t" and "split_dot nm = [nm]"
  shows "loadHasManyRelation e s rcd (ModelClass ent) fk (nm, NoConstraint)
    = Some (Arr (map Obj (filter (\<lambda>r. strict_eq (getp r fk) (getp rcd ''id'')) (map snd t))))"
  using assms
  by (simp add: loadHasManyRelation.simps resolveRelation_def new_Repo_def addConstraint_with_def
        get_without_load Repo_where_def Query_get_where1)

lemma loadHasManyRelation_count:
  assumes "model_of e ent = Some m" and "map_of s ent = Some t" and "split_dot nm = [nm]"
  shows "loadHasManyRelation e s rcd (ModelClass ent) fk (nm, Callback [] (CountIs cmp n))
    = Some (Arr (map Obj
        (if compare cmp (int (length (filter (\<lambda>r. strict_eq (getp r fk) (getp rcd ''id'')) (map snd t)))) n
         then filter (\<lambda>r. strict_eq (getp r fk) (getp rcd ''id'')) (map snd t) else [])))"
  using assms
  by (simp add: loadHasManyRelation.simps resolveRelation_def new_Repo_def addConstraint_with_def
        make_calls_def count.simps get_without_load Repo_where_def Query_get_where1
        Query_get_where2)


section \<open>Relationship existence: \<^verbatim>\<open>has\<close> and \<^verbatim>\<open>hasNot\<close>\<close>

lemma getp_update: "getp (AList.update k v r) k = v"
  by (simp add: getp_def update_conv')

lemma strict_eq_key: "is_key a \<Longrightarrow> strict_eq a b = (a = b)"
  by (cases a; cases b) auto

lemma those_map_Some:
  "those (map f xs) = Some ys \<Longrightarrow> ys = map (\<lambda>x. the (f x)) xs \<and> (\<forall>x \<in> set xs. f x \<noteq> None)"
  by (induction xs arbitrary: ys) (auto split: option.splits)

lemma those_map_total:
  "\<forall>x \<in> set xs. f x = Some (g x) \<Longrightarrow> those (map f xs) = Some (map g xs)"
  by (induction xs) auto

lemma selected_ids:
  "map (\<lambda>(item, answer). key item) (filter (\<lambda>(item, answer). answer = ex) (zip items (map A items)))
     = map key (filter (\<lambda>p. A p = ex) items)"
  by (induction items) auto

lemma includes_selected:
  assumes "\<forall>p \<in> set items. is_key (key p)" and "distinct (map key items)" and "p \<in> set items"
  shows "includes_val (map key (filter P items)) (key p) = P p"
proof -
  have inj: "inj_on key (set items)"
    using assms(2) by (simp add: distinct_map)
  have "includes_val (map key (filter P items)) (key p)
        = (\<exists>q \<in> set items. P q \<and> strict_eq (key q) (key p))"
    by (auto simp: includes_val_def list_ex_iff)
  also have "\<dots> = (\<exists>q \<in> set items. P q \<and> key q = key p)"
    using assms(1) by (auto simp: strict_eq_key)
  also have "\<dots> = P p"
    using inj assms(3) by (auto dest: inj_onD)
  finally show ?thesis .
qed

lemma addHasConstraint_selects:
  assumes repo: "new_Repo e ent w = Some this"
    and table: "map_of s ent = Some t"
    and answers: "\<forall>p \<in> set (map snd t). hasRelation e s this p nm c cnt = Some (A p)"
    and keys: "\<forall>p \<in> set (map snd t). is_key (getp p (primaryKey (rentity this)))"
    and uniq: "distinct (map (\<lambda>p. getp p (primaryKey (rentity this))) (map snd t))"
  shows "\<exists>r. addHasConstraint e s this nm c cnt ex = Some r
     \<and> get e s r = Some (map (as_result this) (filter (\<lambda>p. A p = ex) (map snd t)))"
proof -
  let ?items = "map snd t"
  let ?pk = "primaryKey (rentity this)"
  let ?key = "\<lambda>p. getp p ?pk"
  let ?ids = "map ?key (filter (\<lambda>p. A p = ex) ?items)"
  let ?r = "Repo_where (WhereTest ?pk (includes_val ?ids)) this"
  from repo obtain m where m: "model_of e ent = Some m"
    and shape: "this = \<lparr>rname = ent, rentity = m, wrap = w, load = [], query = new_Query ent\<rparr>"
    by (auto simp: new_Repo_def split: option.splits)
  have rn: "rname this = ent" and re: "rentity this = m" and ld: "load this = []"
    and qu: "query this = new_Query ent"
    by (simp_all add: shape)
  have those: "those (map (\<lambda>item. hasRelation e s this item nm c cnt) ?items) = Some (map A ?items)"
    using answers by (intro those_map_total) simp
  have sel: "map (\<lambda>(item, answer). getp item (primaryKey m))
              (filter (\<lambda>(item, answer). answer = ex) (zip ?items (map A ?items))) = ?ids"
    unfolding re by (rule selected_ids)
  have add: "addHasConstraint e s this nm c cnt ex = Some ?r"
    unfolding addHasConstraint_def
    by (simp only: rn m option.case Query_get_new [OF table] those sel re)
  have "Query_get s (query ?r)
      = Some (filter (\<lambda>p. includes_val ?ids (?key p)) ?items)"
    using Query_get_where1 [OF table, of "WhereTest ?pk (includes_val ?ids)"]
    by (simp add: Repo_where_def qu)
  also have "filter (\<lambda>p. includes_val ?ids (?key p)) ?items = filter (\<lambda>p. A p = ex) ?items"
    using includes_selected [OF keys uniq, of _ "\<lambda>p. A p = ex"]
    by (intro filter_cong) auto
  finally have q: "Query_get s (query ?r) = Some (filter (\<lambda>p. A p = ex) ?items)" .
  have same: "wrap ?r = wrap this" "rentity ?r = rentity this" "load ?r = []"
    by (simp_all add: Repo_where_def ld)
  have "get e s ?r = map_option
     (\<lambda>c. if wrap ?r then map (\<lambda>r. Instance (entity (rentity ?r)) (Obj r)) c else map Obj c)
     (Query_get s (query ?r))"
    using same(3) by (rule get_without_load)
  then have "get e s ?r = Some (map (as_result this) (filter (\<lambda>p. A p = ex) ?items))"
    unfolding q same(1,2) by (simp add: as_result_def [abs_def])
  with add show ?thesis by blast
qed

lemma loadRelations_hasMany:
  assumes "map_of (model_fields (rentity this)) nm = Some (Attribute (HasMany (ModelClass ent) fk))"
    and "split_dot nm = [nm]"
    and "loadHasManyRelation e s base (ModelClass ent) fk (nm, c) = Some v"
  shows "loadRelations e s this base (Some [(nm, c)]) Undefined None
           = Some (Obj (AList.update nm v base))"
  using assms by (simp add: loadRelations.simps reduceLoad.simps)

lemma hasRelation_hasMany_count:
  assumes "map_of (model_fields (rentity this)) nm = Some (Attribute (HasMany (ModelClass ent) fk))"
    and "split_dot nm = [nm]" and "model_of e ent = Some m" and "map_of s ent = Some t"
  shows "hasRelation e s this p nm (NotCallable (Num n)) cnt
    = Some (filter (\<lambda>r. strict_eq (getp r fk) (getp p ''id'')) (map snd t) \<noteq> []
        \<and> int (length (filter (\<lambda>r. strict_eq (getp r fk) (getp p ''id'')) (map snd t))) = n)"
  unfolding hasRelation_def
  by (simp add: loadRelations_hasMany [OF assms(1,2) loadHasManyRelation_count [OF assms(3,4,2)]]
        getp_update compare_def)

lemma hasRelation_hasMany_plain:
  assumes "map_of (model_fields (rentity this)) nm = Some (Attribute (HasMany (ModelClass ent) fk))"
    and "split_dot nm = [nm]" and "model_of e ent = Some m" and "map_of s ent = Some t"
  shows "hasRelation e s this p nm NoConstraint cnt
    = Some (filter (\<lambda>r. strict_eq (getp r fk) (getp p ''id'')) (map snd t) \<noteq> [])"
  unfolding hasRelation_def
  by (simp add: loadRelations_hasMany [OF assms(1,2) loadHasManyRelation_plain [OF assms(3,4,2)]]
        getp_update)

lemma new_Repo_posts:
  assumes "new_Repo blog_env ''posts'' w = Some this"
  shows "rentity this = Post"
  using assms by (auto simp: new_Repo_def blog_models)

lemma make_calls_where:
  "make_calls (map CallWhere ws) q
     = q\<lparr>query := (query q)\<lparr>wheres := wheres (query q) @ map (\<lambda>w. (w, And)) ws\<rparr>\<rparr>"
proof (induction ws arbitrary: q)
  case Nil
  then show ?case by (simp add: make_calls_def)
next
  case (Cons w ws)
  have "make_calls (map CallWhere (w # ws)) q = make_calls (map CallWhere ws) (Repo_where w q)"
    by (simp add: make_calls_def)
  then show ?case
    unfolding Cons.IH by (simp add: Repo_where_def Query_where_def)
qed

lemma Query_get_ands:
  assumes "map_of s ent = Some t"
  shows "Query_get s \<lparr>qname = ent, wheres = map (\<lambda>w. (w, And)) ws, qoffset = 0, qlimit = None\<rparr>
    = Some (filter (\<lambda>r. list_all (passes r) ws) (map snd t))"
proof -
  have a: "map fst (filter (\<lambda>w. snd w = And) (map (\<lambda>w. (w, And)) ws)) = ws"
    by (induction ws) auto
  have b: "map fst (filter (\<lambda>w. snd w = Or) (map (\<lambda>w. (w, And)) ws)) = []"
    by (induction ws) auto
  show ?thesis
    using assms unfolding Query_get_def whereOnRecord_def [abs_def]
    by (simp only: Query.simps option.case a b list_ex_Nil_iff list_ex_Cons_iff drop_0 simp_thms)
qed

lemma get_ands:
  assumes "map_of s ent = Some t"
  shows "get e s \<lparr>rname = ent, rentity = m, wrap = False, load = [],
            query = \<lparr>qname = ent, wheres = map (\<lambda>w. (w, And)) ws, qoffset = 0, qlimit = None\<rparr>\<rparr>
    = Some (map Obj (filter (\<lambda>r. list_all (passes r) ws) (map snd t)))"
  by (simp only: get_without_load Repo.simps Query_get_ands [OF assms] option.map if_False simp_thms)

lemma filter_related:
  "filter (\<lambda>r. list_all (passes r) (WhereField fk v # ws @ extra)) items
     = filter (\<lambda>c. list_all (passes c) ws \<and> list_all (passes c) extra)
         (filter (\<lambda>c. strict_eq (getp c fk) v) items)"
  by (induction items) auto

lemma loadHasManyRelation_where:
  assumes m: "model_of e ent = Some m" and t: "map_of s ent = Some t"
    and seg: "split_dot nm = [nm]"
  shows "loadHasManyRelation e s rcd (ModelClass ent) fk (nm, Callback (map CallWhere ws) ret)
    = Some (Arr (map Obj (filter
        (\<lambda>c. list_all (passes c) ws
             \<and> (case ret of
                   Nothing \<Rightarrow> True
                 | Returns b \<Rightarrow> b
                 | CountIs cmp n \<Rightarrow>
                     compare cmp (int (length (filter (\<lambda>c. list_all (passes c) ws)
                        (related_by fk ''id'' (map snd t) rcd)))) n))
        (related_by fk ''id'' (map snd t) rcd))))"
proof -
  let ?v = "getp rcd ''id''"
  let ?Q = "\<lambda>extra. \<lparr>rname = ent, rentity = m, wrap = False, load = [],
            query = \<lparr>qname = ent, wheres = map (\<lambda>w. (w, And)) (WhereField fk ?v # ws @ extra),
                      qoffset = 0, qlimit = None\<rparr>\<rparr>"
  let ?q1 = "Repo_where (WhereField fk ?v)
        \<lparr>rname = ent, rentity = m, wrap = False, load = [], query = new_Query ent\<rparr>"
  have q2: "make_calls (map CallWhere ws) ?q1 = ?Q []"
    unfolding make_calls_where by (simp add: Repo_where_def Query_where_def new_Query_def)
  have ext: "Repo_where (WhereRecord P) (?Q []) = ?Q [WhereRecord P]" for P
    by (simp add: Repo_where_def Query_where_def)
  have g: "get e s (?Q extra) = Some (map Obj
        (filter (\<lambda>c. list_all (passes c) ws \<and> list_all (passes c) extra)
           (related_by fk ''id'' (map snd t) rcd)))" for extra
    unfolding get_ands [OF t] filter_related related_by_def ..
  have start: "loadHasManyRelation e s rcd (ModelClass ent) fk (nm, Callback (map CallWhere ws) ret)
      = (case addConstraint_with (count e s) ?q1 (nm, Callback (map CallWhere ws) ret) of
           None \<Rightarrow> None | Some q' \<Rightarrow> map_option Arr (get e s q'))"
    using m by (simp add: loadHasManyRelation.simps resolveRelation_def new_Repo_def)
  show ?thesis
  proof (cases ret)
    case Nothing
    have add: "addConstraint_with (count e s) ?q1 (nm, Callback (map CallWhere ws) ret) = Some (?Q [])"
      using seg Nothing by (simp add: addConstraint_with_def q2)
    show ?thesis
      unfolding start add
      by (simp only: option.case option.map Nothing returned.case g list.pred_inject list_all_append simp_thms)
  next
    case (Returns b)
    have add: "addConstraint_with (count e s) ?q1 (nm, Callback (map CallWhere ws) ret)
        = Some (?Q [WhereRecord (\<lambda>_. b)])"
      unfolding addConstraint_with_def Returns
      by (simp only: Let_def fst_conv snd_conv seg constraint.case returned.case q2 ext) simp
    show ?thesis
      unfolding start add
      by (simp only: option.case option.map Returns returned.case g list.pred_inject list_all_append passes.simps
            simp_thms)
  next
    case (CountIs cmp n)
    let ?k = "length (filter (\<lambda>c. list_all (passes c) ws) (related_by fk ''id'' (map snd t) rcd))"
    have w: "(?Q [])\<lparr>wrap := False\<rparr> = ?Q []"
      by simp
    have cnt: "count e s (?Q []) = Some (?k, ?Q [])"
      unfolding count.simps [of e s "?Q []"] w g
      by (simp only: option.case length_map list.pred_inject list_all_append simp_thms)
    have add: "addConstraint_with (count e s) ?q1 (nm, Callback (map CallWhere ws) ret)
        = Some (?Q [WhereRecord (\<lambda>_. compare cmp (int ?k) n)])"
      unfolding addConstraint_with_def CountIs
      by (simp only: Let_def fst_conv snd_conv seg constraint.case returned.case q2 cnt
            option.case prod.case ext) simp
    show ?thesis
      unfolding start add
      by (simp only: option.case option.map CountIs returned.case g list.pred_inject list_all_append passes.simps
            simp_thms)
  qed
qed

lemma has_selects_if:
  assumes repo: "new_Repo e ent w = Some this"
    and table: "map_of s ent = Some t"
    and answers: "\<forall>p \<in> set (map snd t). hasRelation e s this p nm c cnt = Some (A p)"
    and keys: "\<forall>p \<in> set (map snd t). is_key (getp p (primaryKey (rentity this)))"
    and uniq: "distinct (map (\<lambda>p. getp p (primaryKey (rentity this))) (map snd t))"
  shows "has_selects e s this nm c cnt (map snd t) A"
proof -
  have t: "(\<lambda>p. A p = True) = A" and f: "(\<lambda>p. A p = False) = (\<lambda>p. \<not> A p)"
    by auto
  show ?thesis
    unfolding has_selects_def has_def hasNot_def
    using addHasConstraint_selects [OF repo table answers keys uniq, of True]
      addHasConstraint_selects [OF repo table answers keys uniq, of False]
    unfolding t f by (rule conjI)
qed

lemma filter_const: "(filter (\<lambda>c. P c \<and> Q) xs \<noteq> []) = (Q \<and> filter P xs \<noteq> [])"
  by (induction xs) auto

lemma hasRelation_where:
  assumes "map_of (model_fields (rentity this)) nm = Some (Attribute (HasMany (ModelClass ent) fk))"
    and "split_dot nm = [nm]" and "model_of e ent = Some m" and "map_of s ent = Some t"
  shows "hasRelation e s this p nm (Callback (map CallWhere ws) ret) cnt
    = Some ((case ret of
               Nothing \<Rightarrow> True
             | Returns b \<Rightarrow> b
             | CountIs cmp n \<Rightarrow>
                 compare cmp (int (length (filter (\<lambda>c. list_all (passes c) ws)
                    (related_by fk ''id'' (map snd t) p)))) n)
        \<and> filter (\<lambda>c. list_all (passes c) ws) (related_by fk ''id'' (map snd t) p) \<noteq> [])"
  unfolding hasRelation_def
  by (simp only: Let_def constraint.case
        loadRelations_hasMany [OF assms(1,2) loadHasManyRelation_where [OF assms(3,4,2)]]
        option.case own_props.simps getp_update isEmpty.simps map_is_Nil_conv filter_const)

lemma hasRelation_plain:
  assumes "map_of (model_fields (rentity this)) nm = Some (Attribute (HasMany (ModelClass ent) fk))"
    and "split_dot nm = [nm]" and "model_of e ent = Some m" and "map_of s ent = Some t"
  shows "hasRelation e s this p nm NoConstraint cnt
    = Some (related_by fk ''id'' (map snd t) p \<noteq> [])"
  using hasRelation_hasMany_plain [OF assms] by (simp add: related_by_def)

lemma hasRelation_compare:
  assumes "map_of (model_fields (rentity this)) nm = Some (Attribute (HasMany (ModelClass ent) fk))"
    and "split_dot nm = [nm]" and "model_of e ent = Some m" and "map_of s ent = Some t"
  shows "hasRelation e s this p nm (Callback [] (CountIs cmp n)) cnt
    = Some (compare cmp (int (length (related_by fk ''id'' (map snd t) p))) n
        \<and> related_by fk ''id'' (map snd t) p \<noteq> [])"
  using hasRelation_where [OF assms, of p "[]" "CountIs cmp n" cnt] by simp

lemma hasRelation_number:
  "hasRelation e s this p nm (NotCallable (Num n)) cnt
     = hasRelation e s this p nm (Callback [] (CountIs Equal n)) cnt"
  by (simp add: hasRelation_def)

lemma hasRelation_operator:
  "hasRelation e s this p nm (NotCallable (Str ''>'')) (Num k)
     = hasRelation e s this p nm (Callback [] (CountIs Greater k)) (Num k)"
  "hasRelation e s this p nm (NotCallable (Str ''>='')) (Num k)
     = hasRelation e s this p nm (Callback [] (CountIs GreaterEq k)) (Num k)"
  "hasRelation e s this p nm (NotCallable (Str ''<'')) (Num k)
     = hasRelation e s this p nm (Callback [] (CountIs Less k)) (Num k)"
  "hasRelation e s this p nm (NotCallable (Str ''<='')) (Num k)
     = hasRelation e s this p nm (Callback [] (CountIs LessEq k)) (Num k)"
  by (simp_all add: hasRelation_def)




section \<open>Dotted relation paths\<close>

lemma addConstraint_with_dotted:
  assumes "length (split_dot nm) \<noteq> 1"
  shows "addConstraint_with f q (nm, c) = Some (Repo_with (join_dot (tl (split_dot nm))) NoConstraint q)"
  using assms by (simp add: addConstraint_with_def)

lemma get_with_load:
  assumes "load q \<noteq> []" and "\<not> wrap q"
  shows "get e s q =
     (case Query_get s (query q) of
        None \<Rightarrow> None
      | Some c \<Rightarrow> those (map (\<lambda>r. loadRelations e s q r None Undefined None) c))"
  using assms by (auto simp: get.simps collect.simps split: option.splits)

lemma first_with_load:
  assumes "load q \<noteq> []" and "\<not> wrap q"
  shows "first e s q ident =
     (case Query_first s (query q) ident of
        None \<Rightarrow> None
      | Some qi \<Rightarrow> if truthy qi then loadRelations e s q (own_props qi) None Undefined None else Some Null)"
  using assms by (auto simp: first.simps item.simps split: option.splits)

lemma loadRelations_defaults:
  "loadRelations e s q r None rcd None
     = loadRelations e s q r (Some (load q)) rcd (Some (model_fields (rentity q)))"
  by (simp add: loadRelations.simps)

lemma loadHasManyRelation_returns:
  assumes "model_of e ent = Some m" and "map_of s ent = Some t" and "split_dot nm = [nm]"
  shows "loadHasManyRelation e s rcd (ModelClass ent) fk (nm, Callback [] (Returns b))
    = Some (Arr (map Obj
        (if b then filter (\<lambda>r. strict_eq (getp r fk) (getp rcd ''id'')) (map snd t) else [])))"
  using assms
  by (simp add: loadHasManyRelation.simps resolveRelation_def new_Repo_def addConstraint_with_def
        make_calls_def get_without_load Repo_where_def Query_get_where1 Query_get_where2)

lemma reduceLoad_single_HasMany:
  assumes "hd (split_dot nm) = a"
    and "map_of flds a = Some (Attribute (HasMany rel fk))"
    and "loadHasManyRelation e s base rel fk (nm, c) = Some v"
  shows "reduceLoad e s this base lds flds [(nm, c)] (Obj r) = Some (Obj (AList.update a v r))"
  using assms by (simp add: reduceLoad.simps)

lemma reduceLoad_single_BelongsTo:
  assumes "hd (split_dot nm) = a"
    and "map_of flds a = Some (Attribute (BelongsTo rel fk))"
    and "loadBelongsToRelation e s base rel fk (nm, c) = Some v"
  shows "reduceLoad e s this base lds flds [(nm, c)] (Obj r) = Some (Obj (AList.update a v r))"
  using assms by (simp add: reduceLoad.simps)

lemma post2_comments:
  "filter (\<lambda>r. strict_eq (getp r ''post_id'') (getp [(''id'', Num 2), (''title'', Str ''Two''), (''user_id'', Num 1)] ''id''))
     (map snd [(''1'', [(''id'', Num 1), (''post_id'', Num 1)]),
               (''2'', [(''id'', Num 2), (''post_id'', Num 1)]),
               (''3'', [(''id'', Num 3), (''post_id'', Num 2)])])
   = [[(''id'', Num 3), (''post_id'', Num 2)]]"
  by (simp add: getp_def)

lemma post2_load_comments:
  "loadHasManyRelation blog_env blog_state
      [(''id'', Num 2), (''title'', Str ''Two''), (''user_id'', Num 1)]
      (ModelClass ''comments'') ''post_id'' (''comments'', NoConstraint)
    = Some (Arr [Obj [(''id'', Num 3), (''post_id'', Num 2)]])"
  using loadHasManyRelation_plain [OF blog_models(3) blog_tables(2), of "''comments''"
      "[(''id'', Num 2), (''title'', Str ''Two''), (''user_id'', Num 1)]" "''post_id''"]
  unfolding post2_comments by simp

lemma post2_load_comments_false:
  "loadHasManyRelation blog_env blog_state
      [(''id'', Num 2), (''title'', Str ''Two''), (''user_id'', Num 1)]
      (ModelClass ''comments'') ''post_id'' (''comments'', Callback [] (Returns False))
    = Some (Arr [])"
  using loadHasManyRelation_returns [OF blog_models(3) blog_tables(2), of "''comments''"
      "[(''id'', Num 2), (''title'', Str ''Two''), (''user_id'', Num 1)]" "''post_id''" False]
  by simp

lemma posts_first_2:
  "Query_first blog_state (new_Query ''posts'') (Num 2)
     = Some (Obj [(''id'', Num 2), (''title'', Str ''Two''), (''user_id'', Num 1)])"
  by (simp add: Query_first_def new_Query_def blog_tables show_int_digit)

lemma comments_first_3:
  "Query_first blog_state (new_Query ''comments'') (Num 3)
     = Some (Obj [(''id'', Num 3), (''post_id'', Num 2)])"
  by (simp add: Query_first_def new_Query_def blog_tables show_int_digit)

lemma post2_with_comments:
  assumes "loadHasManyRelation blog_env blog_state
      [(''id'', Num 2), (''title'', Str ''Two''), (''user_id'', Num 1)]
      (ModelClass ''comments'') ''post_id'' (''comments'', c) = Some v"
  shows "first blog_env blog_state
      \<lparr>rname = ''posts'', rentity = Post, wrap = False, load = [(''comments'', c)],
       query = new_Query ''posts''\<rparr> (Num 2)
     = Some (Obj [(''id'', Num 2), (''title'', Str ''Two''), (''user_id'', Num 1), (''comments'', v)])"
proof -
  have fld: "map_of (model_fields Post) ''comments''
      = Some (Attribute (HasMany (ModelClass ''comments'') ''post_id''))"
    by (simp add: Post_def)
  have seg: "hd (split_dot ''comments'') = ''comments''"
    by simp
  show ?thesis
    by (simp add: first_with_load posts_first_2 loadRelations.simps
          reduceLoad_single_HasMany [OF seg fld assms])
qed

lemma comment3_post_dotted:
  "loadBelongsToRelation blog_env blog_state [(''id'', Num 3), (''post_id'', Num 2)]
      (ModelClass ''posts'') ''post_id'' (''post.comments'', c)
    = Some (Obj [(''id'', Num 2), (''title'', Str ''Two''), (''user_id'', Num 1),
                 (''comments'', Arr [Obj [(''id'', Num 3), (''post_id'', Num 2)]])])"
proof -
  have seg: "split_dot ''post.comments'' = [''post'', ''comments'']"
    by simp
  have "addConstraint_with f q (''post.comments'', c) = Some (Repo_with ''comments'' NoConstraint q)"
    for f q
    by (simp add: addConstraint_with_def seg join_dot_def)
  then show ?thesis
    using post2_with_comments [OF post2_load_comments]
    by (simp add: loadBelongsToRelation.simps resolveRelation_def new_Repo_def blog_models
          Repo_with_def getp_def)
qed

lemma comment3_post_nested:
  "loadBelongsToRelation blog_env blog_state [(''id'', Num 3), (''post_id'', Num 2)]
      (ModelClass ''posts'') ''post_id''
      (''post'', Callback [CallWith ''comments'' (Callback [] (Returns False))] Nothing)
    = Some (Obj [(''id'', Num 2), (''title'', Str ''Two''), (''user_id'', Num 1),
                 (''comments'', Arr [])])"
  using post2_with_comments [OF post2_load_comments_false]
  by (simp add: loadBelongsToRelation.simps resolveRelation_def new_Repo_def blog_models
        addConstraint_with_def make_calls_def Repo_with_def getp_def)

lemma comment3_with_post:
  assumes "hd (split_dot nm) = ''post''"
    and "loadBelongsToRelation blog_env blog_state [(''id'', Num 3), (''post_id'', Num 2)]
      (ModelClass ''posts'') ''post_id'' (nm, c) = Some v"
  shows "first blog_env blog_state (Repo_with nm c comments_repo) (Num 3)
     = Some (Obj [(''id'', Num 3), (''post_id'', Num 2), (''post'', v)])"
proof -
  have fld: "map_of (model_fields Comment) ''post''
      = Some (Attribute (BelongsTo (ModelClass ''posts'') ''post_id''))"
    by (simp add: Comment_def)
  have q: "Repo_with nm c comments_repo
      = \<lparr>rname = ''comments'', rentity = Comment, wrap = False, load = [(nm, c)],
         query = new_Query ''comments''\<rparr>"
    by (simp add: Repo_with_def comments_repo_def)
  show ?thesis
    unfolding q
    by (simp add: first_with_load comments_first_3 loadRelations.simps
          reduceLoad_single_BelongsTo [OF assms(1) fld assms(2)])
qed



lemma nested_size: "(k, Nested sub) \<in> set flds \<Longrightarrow> fields_size sub < fields_size flds"
  by (induction flds) auto

lemma loaders_same_constraint:
  assumes "fst r = fst r'" and "length (split_dot (fst r)) = 1 \<longrightarrow> snd r = snd r'"
  shows "loadHasOneRelation e s base m fk r = loadHasOneRelation e s base m fk r'"
    and "loadBelongsToRelation e s base m fk r = loadBelongsToRelation e s base m fk r'"
    and "loadHasManyRelation e s base m fk r = loadHasManyRelation e s base m fk r'"
    and "loadHasManyByRelation e s base m fk ok r = loadHasManyByRelation e s base m fk ok r'"
proof -
  have "addConstraint_with f q r = addConstraint_with f q r'" for f q
  proof (cases "length (split_dot (fst r)) = 1")
    case True
    with assms have "r = r'" by (simp add: prod_eq_iff)
    then show ?thesis by simp
  next
    case False
    with assms(1) show ?thesis
      by (simp add: addConstraint_with_def)
  qed
  then show "loadHasOneRelation e s base m fk r = loadHasOneRelation e s base m fk r'"
    and "loadBelongsToRelation e s base m fk r = loadBelongsToRelation e s base m fk r'"
    and "loadHasManyRelation e s base m fk r = loadHasManyRelation e s base m fk r'"
    and "loadHasManyByRelation e s base m fk ok r = loadHasManyByRelation e s base m fk ok r'"
    by (simp_all add: loadHasOneRelation.simps loadBelongsToRelation.simps
          loadHasManyRelation.simps loadHasManyByRelation.simps
          cong: option.case_cong jsval.case_cong)
qed

lemma forEachField_same:
  assumes names: "relation_names lds = relation_names lds'"
    and sub: "\<And>k sub rcd. (k, Nested sub) \<in> set fs \<Longrightarrow>
      loadRelations e s this base (Some lds) rcd (Some sub)
        = loadRelations e s this' base (Some lds') rcd (Some sub)"
  shows "forEachField e s this base lds nm fs rcd = forEachField e s this' base lds' nm fs rcd"
  using sub
proof (induction fs arbitrary: rcd)
  case Nil
  then show ?case by (simp add: forEachField.simps)
next
  case (Cons kf fs)
  have IH: "forEachField e s this base lds nm fs rcd = forEachField e s this' base lds' nm fs rcd"
    for rcd
  proof (rule Cons.IH)
    fix k sub rcd'
    assume "(k, Nested sub) \<in> set fs"
    then have "(k, Nested sub) \<in> set (kf # fs)" by simp
    then show "loadRelations e s this base (Some lds) rcd' (Some sub)
        = loadRelations e s this' base (Some lds') rcd' (Some sub)"
      by (rule Cons.prems)
  qed
  show ?case
  proof (cases "snd kf")
    case (Attribute a)
    then show ?thesis
      by (simp add: forEachField.simps names IH cong: option.case_cong)
  next
    case (Nested sub)
    have "(fst kf, Nested sub) \<in> set (kf # fs)"
      using Nested by (cases kf) simp
    from Cons.prems [OF this]
    have "loadRelations e s this base (Some lds) rcd (Some sub)
        = loadRelations e s this' base (Some lds') rcd (Some sub)" for rcd .
    with Nested show ?thesis
      by (simp add: forEachField.simps IH cong: option.case_cong)
  qed
qed

lemma reduceLoad_same:
  assumes rel: "list_all2 (\<lambda>r r'. fst r = fst r'
        \<and> (length (split_dot (fst r)) = 1 \<longrightarrow> snd r = snd r')) remaining remaining'"
    and fe: "\<And>nm rcd. forEachField e s this base lds nm flds rcd
        = forEachField e s this' base lds' nm flds rcd"
  shows "reduceLoad e s this base lds flds remaining rcd
       = reduceLoad e s this' base lds' flds remaining' rcd"
  using rel
proof (induction remaining remaining' arbitrary: rcd rule: list_all2_induct)
  case Nil
  then show ?case by (simp add: reduceLoad.simps)
next
  case (Cons r rs r' rs')
  from Cons.hyps(1) have nm: "fst r = fst r'"
    and c: "length (split_dot (fst r)) = 1 \<longrightarrow> snd r = snd r'"
    by simp_all
  note ld = loaders_same_constraint [OF nm c]
  show ?case
    unfolding reduceLoad.simps(2) [of e s this base lds flds r rs rcd]
      reduceLoad.simps(2) [of e s this' base lds' flds r' rs' rcd]
    by (simp only: nm ld fe Cons.IH cong: option.case_cong field.case_cong attribute.case_cong)
qed

lemma loadRelations_same:
  assumes rel: "list_all2 (\<lambda>r r'. fst r = fst r'
        \<and> (length (split_dot (fst r)) = 1 \<longrightarrow> snd r = snd r')) lds lds'"
  shows "loadRelations e s this base (Some lds) rcd (Some flds)
       = loadRelations e s this' base (Some lds') rcd (Some flds)"
proof (induction "fields_size flds" arbitrary: flds rcd rule: less_induct)
  case less
  have names: "relation_names lds = relation_names lds'"
    using rel by (induction lds lds' rule: list_all2_induct) (auto simp: relation_names_def)
  have fe: "forEachField e s this base lds nm flds rcd
        = forEachField e s this' base lds' nm flds rcd" for nm rcd
    by (rule forEachField_same [OF names]) (rule less, rule nested_size)
  show ?case
    unfolding loadRelations.simps [of e s this] loadRelations.simps [of e s this']
    by (simp only: option.case reduceLoad_same [OF rel fe])
qed

lemma dotted_related:
  assumes "length (split_dot nm) \<noteq> 1"
  shows "list_all2 (\<lambda>r r'. fst r = fst r' \<and> (length (split_dot (fst r)) = 1 \<longrightarrow> snd r = snd r'))
     (lds @ [(nm, c)]) (lds @ [(nm, c')])"
  using assms by (intro list_all2_appendI list_all2_refl) simp_all

lemma loadRelations_with_dotted:
  assumes "length (split_dot nm) \<noteq> 1"
  shows "loadRelations e s (Repo_with nm c q) base None rcd None
       = loadRelations e s (Repo_with nm c' q) base None rcd None"
proof -
  have "loadRelations e s (Repo_with nm c q) base (Some (load q @ [(nm, c)])) rcd
          (Some (model_fields (rentity q)))
      = loadRelations e s (Repo_with nm c' q) base (Some (load q @ [(nm, c')])) rcd
          (Some (model_fields (rentity q)))"
    by (rule loadRelations_same [OF dotted_related [OF assms]])
  then show ?thesis
    by (simp add: loadRelations_defaults Repo_with_def)
qed

lemma get_with_dotted:
  assumes "length (split_dot nm) \<noteq> 1"
  shows "get e s (Repo_with nm c q) = get e s (Repo_with nm c' q)"
proof -
  have same: "query (Repo_with nm c q) = query (Repo_with nm c' q)"
    "wrap (Repo_with nm c q) = wrap (Repo_with nm c' q)"
    "rentity (Repo_with nm c q) = rentity (Repo_with nm c' q)"
    "load (Repo_with nm c q) \<noteq> []" "load (Repo_with nm c' q) \<noteq> []"
    by (simp_all add: Repo_with_def)
  show ?thesis
    unfolding get.simps collect.simps
    by (simp only: same loadRelations_with_dotted [OF assms, of e s c q _ _ c'] if_True if_False simp_thms)
qed

lemma first_with_dotted:
  assumes "length (split_dot nm) \<noteq> 1"
  shows "first e s (Repo_with nm c q) ident = first e s (Repo_with nm c' q) ident"
proof -
  have same: "query (Repo_with nm c q) = query (Repo_with nm c' q)"
    "wrap (Repo_with nm c q) = wrap (Repo_with nm c' q)"
    "rentity (Repo_with nm c q) = rentity (Repo_with nm c' q)"
    "load (Repo_with nm c q) \<noteq> []" "load (Repo_with nm c' q) \<noteq> []"
    by (simp_all add: Repo_with_def)
  show ?thesis
    unfolding first.simps item.simps
    by (simp only: same loadRelations_with_dotted [OF assms, of e s c q _ _ c'] if_True if_False simp_thms)
qed

lemma loadRelations_single:
  "loadRelations e s q base (Some [relation]) Undefined None
     = reduceLoad e s q base [relation] (model_fields (rentity q)) [relation] (Obj base)"
  by (simp add: loadRelations.simps)




section \<open>Relation loading and the stored records\<close>

text \<open>
  C9 fails on the code. \<^verbatim>\<open>loadRelations\<close> is run on the stored user with the relation
  \<^verbatim>\<open>account\<close>, as \<^verbatim>\<open>with('account')\<close> followed by \<^verbatim>\<open>first(1)\<close> runs it. The result is a new
  object at address 3, but the \<^verbatim>\<open>settings\<close> object of the stored user, at address 1, has
  been written: its \<^verbatim>\<open>account\<close> was \<^verbatim>\<open>null\<close> and now refers to the account.
\<close>

theorem loadRelations_writes_stored_object:
  "loadRelations_heap account_loader account_heap 0 [(''account'', NoConstraint)] (Val Undefined)
      account_fields
    = Some (Ref 3,
        [[(''id'', Val (Num 1)), (''settings'', Ref 1)],
         [(''account'', Ref 2)],
         [(''id'', Val (Num 10)), (''user_id'', Val (Num 1))],
         [(''id'', Val (Num 1)), (''settings'', Ref 1)]])
   \<and> account_heap ! 1 = [(''account'', Val Null)]"
proof -
  have "loadRelations_heap account_loader account_heap 0 [(''account'', NoConstraint)] (Val Undefined)
      account_fields
    = Some (Ref 3,
        [[(''id'', Val (Num 1)), (''settings'', Ref 1)],
         [(''account'', Ref 2)],
         [(''id'', Val (Num 10)), (''user_id'', Val (Num 1))],
         [(''id'', Val (Num 1)), (''settings'', Ref 1)]])"
    by code_simp
  moreover have "account_heap ! 1 = [(''account'', Val Null)]"
    by (simp add: account_heap_def)
  ultimately show ?thesis by (intro conjI)
qed


end
